theory Spec2Isabelle
  imports Main "HOL-Library.AList"
begin

section \<open>Data model\<close>

text \<open>
  Go's \<open>error\<close> interface is one type. The controller and the offboarding job distinguish
  three kinds of it: the not-found status of the cluster API (\<open>client.IgnoreNotFound\<close>),
  the sentinel \<open>ldap.ErrNoUserFound\<close>, and a \<open>*goldap.Error\<close> with its result code.
  Every other error is a message.
\<close>

datatype error =
    NotFoundError
  | ErrNoUserFound
  | LDAPError nat
  | Error string

text \<open>The \<open>Group\<close> custom resource (\<open>api/v1alpha1\<close>), with the fields the controller uses.\<close>

record Backend =
  bName :: string
  bType :: string

record GroupParam =
  gpBackend :: string
  gpName :: string
  gpProperty :: string
  gpValue :: "string list"

record Members =
  Users :: "string list"
  Groups :: "string list"

record GroupSpec =
  GroupName :: string
  Members :: Members
  Backends :: "Backend list"
  GroupParams :: "GroupParam list"

datatype ConditionStatus = ConditionTrue | ConditionFalse | ConditionUnknown

text \<open>\<open>metav1.Condition\<close> without \<open>LastTransitionTime\<close> (wall-clock time is not modelled).\<close>

record Condition =
  cType :: string
  cStatus :: ConditionStatus
  cReason :: string
  cMessage :: string
  cObservedGeneration :: int

record BackendStatus =
  bsName :: string
  bsType :: string
  bsStatus :: bool
  bsMessage :: string

record GroupStatus =
  ReconciledUsers :: "string list"
  Conditions :: "Condition list"
  BackendsStatus :: "BackendStatus list"

record OwnerReference =
  orAPIVersion :: string
  orKind :: string
  orName :: string
  orUID :: string
  orBlockOwnerDeletion :: bool

record Group =
  Name :: string
  Namespace :: string
  UID :: string
  Generation :: int
  DeletionTimestamp :: "nat option"
  Finalizers :: "string list"
  OwnerReferences :: "OwnerReference list"
  Labels :: "(string \<times> string) list option"
  Spec :: GroupSpec
  Status :: GroupStatus

text \<open>\<open>structs.Team\<close>, \<open>structs.TeamParams\<close>, \<open>structs.BackendParams\<close> and the fields of
  \<open>structs.User\<close> and \<open>structs.LDAPUser\<close> that the controller reads and writes.\<close>

record TeamParams =
  tpProperty :: string
  tpValue :: "string list"

record Team =
  tID :: string
  tName :: string
  tDescription :: string
  tRole :: string
  tTeamParams :: TeamParams

record BackendParams =
  bpName :: string
  bpType :: string
  bpGroupParams :: TeamParams

record User =
  uID :: string
  uEmail :: string
  uUserName :: string
  uRole :: string
  uFirstName :: string
  uLastName :: string

record LDAPUser =
  luEmail :: string
  luUID :: string
  luDisplayName :: string
  luSN :: string

text \<open>A backend client, as \<open>clients.New\<close> returns it: the backend key it was built for, and
  whether it is a \<open>*gitlab.GitlabClient\<close> (the type assertion of \<open>setupLdapSync\<close>).\<close>

record Client =
  clKey :: string
  clIsGitlab :: bool

text \<open>\<open>config.Backend\<close> with the fields read by \<open>setupLdapSync\<close> and
  \<open>ldapDependantChecks\<close>.\<close>

record Dependant =
  depName :: string
  depType :: string

record BackendConfig =
  Enabled :: bool
  DependsOn :: Dependant

section \<open>Effects\<close>

text \<open>
  Every call that leaves the process (cluster API, LDAP, backend adapters, cache) and every
  operation on the shared cache mutex is recorded in a trace, in the order in which the code
  performs it. The three reads of Group resources are told apart by the function that
  performs them.
\<close>

datatype event =
    GetGroupCR "string \<times> string"
  | GetParentCR "string \<times> string"
  | GetMemberCR "string \<times> string"
  | UpdateCR Group
  | UpdateCRStatus Group
  | CacheLock
  | CacheUnlock
  | CacheRLock
  | CacheRUnlock
  | LDAPGetUser string
  | LDAPGetUserByEmail string
  | ClientsNew string string
  | SetLdapSync string string
  | CreateTeam string Team
  | CreateUser string User
  | FetchTeamMembersByTeamID string string
  | AddUserToTeam string string "string list"
  | RemoveUserFromTeam string string "string list"
  | DeleteTeamByID string string
  | DeleteUser string string
  | UserGetBackends string
  | UserSetBackend string string string
  | UserDelete string
  | UserGetByPattern string
  | TeamGetBackends string
  | TeamDelete string
  | GroupGetMembers string
  | GroupSetMembers string "string list"
  | GroupGetBackendID string string string
  | GroupSetBackend string string string string
  | GroupBackendExists string string string
  | GroupDelete string
  | UserGroupsAddGroup string string
  | UserGroupsRemoveGroup string string




section \<open>Recursive member expansion\<close>

text \<open>
  The cluster holds Group resources under (namespace, name). \<open>r.Client.Get\<close> is a lookup,
  and fails with not-found when there is no such resource.

  \<open>fetchUniqueGroupMembers\<close> (group_controller.go, 921-952). \<open>visitedOnPath\<close> is the Go map
  used as a set; the deferred \<open>delete\<close> restores it when a call returns, so each call of the
  source sees the set its caller had on entry plus the caller's own name: the model passes
  the set down. The loop over \<open>Spec.Members.Groups\<close> is \<open>fetchSubGroups\<close>; it stops at the
  first error, as the \<open>return nil, err\<close> inside the loop does.
\<close>

type_synonym objects = "((string \<times> string) \<times> Group) list"

lemma unvisited_card_less:
  assumes "map_of objs (ns, g) = Some cr" and "g \<notin> set visited"
  shows "card (snd ` fst ` set objs - set (g # visited)) < card (snd ` fst ` set objs - set visited)"
proof -
  have "((ns, g), cr) \<in> set objs" using assms(1) by (rule map_of_SomeD)
  then have "snd (fst ((ns, g), cr)) \<in> snd ` fst ` set objs" by (intro imageI)
  then have "g \<in> snd ` fst ` set objs - set visited" using assms(2) by simp
  moreover have "snd ` fst ` set objs - set (g # visited) = (snd ` fst ` set objs - set visited) - {g}"
    by auto
  moreover have "finite (snd ` fst ` set objs - set visited)" by simp
  ultimately show ?thesis using card_Diff1_less [of "snd ` fst ` set objs - set visited" g] by simp
qed

function fetchUniqueGroupMembers ::
    "objects \<Rightarrow> string \<Rightarrow> string \<Rightarrow> string list \<Rightarrow> (error + string list) \<times> event list"
  and fetchSubGroups ::
    "objects \<Rightarrow> string list \<Rightarrow> string \<Rightarrow> string list \<Rightarrow> (error + string list) \<times> event list"
where
  "fetchUniqueGroupMembers objs groupName namespace visitedOnPath =
     (if groupName \<in> set visitedOnPath then (Inr [], [])
      else (case map_of objs (namespace, groupName) of
              None \<Rightarrow> (Inl NotFoundError, [GetMemberCR (namespace, groupName)])
            | Some groupCR \<Rightarrow>
                (case fetchSubGroups objs (Groups (Members (Spec groupCR))) namespace
                        (groupName # visitedOnPath) of
                   (Inl e, evs) \<Rightarrow> (Inl e, GetMemberCR (namespace, groupName) # evs)
                 | (Inr subMembers, evs) \<Rightarrow>
                     (Inr (Users (Members (Spec groupCR)) @ subMembers),
                      GetMemberCR (namespace, groupName) # evs))))"
| "fetchSubGroups objs [] namespace visitedOnPath = (Inr [], [])"
| "fetchSubGroups objs (subGroup # rest) namespace visitedOnPath =
     (case fetchUniqueGroupMembers objs subGroup namespace visitedOnPath of
        (Inl e, evs) \<Rightarrow> (Inl e, evs)
      | (Inr subMembers, evs) \<Rightarrow>
          (case fetchSubGroups objs rest namespace visitedOnPath of
             (Inl e, evs') \<Rightarrow> (Inl e, evs @ evs')
           | (Inr others, evs') \<Rightarrow> (Inr (subMembers @ others), evs @ evs')))"
  by pat_completeness auto

termination
proof (relation "measures
   [\<lambda>x. case x of Inl (objs, g, ns, vis) \<Rightarrow> card (snd ` fst ` set objs - set vis)
              | Inr (objs, gs, ns, vis) \<Rightarrow> card (snd ` fst ` set objs - set vis),
    \<lambda>x. case x of Inl (objs, g, ns, vis) \<Rightarrow> 0
              | Inr (objs, gs, ns, vis) \<Rightarrow> Suc (length gs)]", goal_cases)
  case 1
  show ?case by simp
next
  case (2 objs groupName namespace visitedOnPath x2)
  then show ?case using unvisited_card_less [of objs namespace groupName x2 visitedOnPath] by simp
next
  case 3
  show ?case by simp
next
  case 4
  show ?case by simp
qed

text \<open>\<open>deduplicateMembers\<close> (954-965): keeps the first occurrence of each member.\<close>

fun deduplicateMembersAux :: "string list \<Rightarrow> string list \<Rightarrow> string list" where
  "deduplicateMembersAux uniqueMembers [] = uniqueMembers"
| "deduplicateMembersAux uniqueMembers (member # members) =
     (if member \<in> set uniqueMembers then deduplicateMembersAux uniqueMembers members
      else deduplicateMembersAux (uniqueMembers @ [member]) members)"

definition deduplicateMembers :: "string list \<Rightarrow> string list" where
  "deduplicateMembers members = deduplicateMembersAux [] members"

text \<open>
  The groups that the traversal counts: \<open>onPath objs ns V g m\<close> holds when \<open>m\<close> is reached
  from \<open>g\<close> along \<open>Spec.Members.Groups\<close> edges by a path that visits no group of \<open>V\<close> and no
  group twice.
\<close>

inductive onPath :: "objects \<Rightarrow> string \<Rightarrow> string set \<Rightarrow> string \<Rightarrow> string \<Rightarrow> bool"
  for objs :: objects and ns :: string
where
  here: "g \<notin> V \<Longrightarrow> map_of objs (ns, g) = Some cr \<Longrightarrow> onPath objs ns V g g"
| step: "g \<notin> V \<Longrightarrow> map_of objs (ns, g) = Some cr \<Longrightarrow> sub \<in> set (Groups (Members (Spec cr)))
         \<Longrightarrow> onPath objs ns (insert g V) sub m \<Longrightarrow> onPath objs ns V g m"

definition usersOf :: "objects \<Rightarrow> string \<Rightarrow> string \<Rightarrow> string set" where
  "usersOf objs ns m = (case map_of objs (ns, m) of None \<Rightarrow> {} | Some cr \<Rightarrow> set (Users (Members (Spec cr))))"

text \<open>Every group that a resource of the cluster names as a sub-group exists.\<close>

definition closedGraph :: "objects \<Rightarrow> bool" where
  "closedGraph objs =
     list_all (\<lambda>(k, cr). list_all (\<lambda>sub. map_of objs (fst k, sub) \<noteq> None) (Groups (Members (Spec cr)))) objs"

section \<open>Environment and state\<close>

text \<open>
  What the code takes from outside is a parameter of the model. The configuration
  (\<open>AppConfig\<close>) gives the name transformer and the backend map; the constants of packages
  that are not part of the sources are fields as well. The answers of the remote systems
  are oracles: each takes the trace up to and including the call it answers, so an answer
  may depend on everything that happened before.
  \<^item> \<open>transformedGroupName t g\<close> is \<open>utils.GetTransformedGroupName(AppConfig, t, g)\<close>;
    \<open>Inl\<close> is its error (no pattern of backend type \<open>t\<close> matches \<open>g\<close>).
  \<^item> \<open>clusterWrite\<close> answers \<open>r.Update\<close> and \<open>r.Status().Update\<close>, \<open>cacheFault\<close> every
    operation of the store layer, \<open>backendAck\<close> the adapter calls that return only an error.
\<close>

record env =
  transformedGroupName :: "string \<Rightarrow> string \<Rightarrow> error + string"
  BackendMap :: "(string \<times> (string \<times> BackendConfig) list) list"
  AccountReviewerRole :: string
  GroupVersion :: string
  GroupReadyCondition :: string
  ForceReconcileLabel :: string
  conditionText :: "ConditionStatus \<Rightarrow> string \<times> string"
  MapToStruct :: "(string \<times> string) list \<Rightarrow> error + LDAPUser"
  clusterWrite :: "event list \<Rightarrow> error option"
  cacheFault :: "event list \<Rightarrow> error option"
  GetUserLDAPData :: "event list \<Rightarrow> error + (string \<times> string) list"
  GetUserLDAPDataByEmail :: "event list \<Rightarrow> error + (string \<times> string) list"
  clientsNew :: "event list \<Rightarrow> error + Client"
  createTeam :: "event list \<Rightarrow> error + Team"
  createUser :: "event list \<Rightarrow> error + User"
  fetchTeamMembersByTeamID :: "event list \<Rightarrow> error + (string \<times> User) list"
  backendAck :: "event list \<Rightarrow> error option"

text \<open>\<open>store.GroupData\<close> and \<open>store.BackendInfo\<close> (DEVELOPMENT.md, Store Layer).\<close>

record BackendInfo =
  biID :: string
  biName :: string
  biType :: string

record GroupData =
  gdMembers :: "string list"
  gdBackends :: "(string \<times> BackendInfo) list"

text \<open>
  The state: the trace, the Group resources of the cluster, the four views of the cache
  (\<open>user:\<close>, \<open>team:\<close>, \<open>group:\<close>, \<open>user:groups:\<close>), each a list of key and value, and the
  reconciler's scratchpad \<open>allLdapUserData\<close>.
\<close>

record state =
  trace :: "event list"
  objects :: objects
  userStore :: "(string \<times> (string \<times> string) list) list"
  teamStore :: "(string \<times> (string \<times> string) list) list"
  groupStore :: "(string \<times> GroupData) list"
  userGroupsStore :: "(string \<times> string list) list"
  allLdapUserData :: "(string \<times> LDAPUser) list"

definition emit :: "event \<Rightarrow> state \<Rightarrow> state" where
  "emit ev s = s\<lparr>trace := trace s @ [ev]\<rparr>"

definition errorString :: "error \<Rightarrow> string" where
  "errorString e = (case e of
       NotFoundError \<Rightarrow> ''not found''
     | ErrNoUserFound \<Rightarrow> ''no LDAP entries found for user''
     | LDAPError code \<Rightarrow> ''LDAP Result Code''
     | Error msg \<Rightarrow> msg)"

text \<open>
  The two verbs of \<open>fmt\<close> that the messages below use: \<open>%d\<close> prints a length in decimal, and
  \<open>%v\<close> prints a slice of strings (or of errors, by their messages) as its elements
  between brackets, separated by one space.
\<close>

definition digitChar :: "nat \<Rightarrow> char" where
  "digitChar d = ''0123456789'' ! d"

function fmtD :: "nat \<Rightarrow> string" where
  "fmtD n = (if n < 10 then [digitChar n] else fmtD (n div 10) @ [digitChar (n mod 10)])"
  by pat_completeness auto

termination
  by (relation "measure id") auto

declare fmtD.simps [simp del]

fun joinSpace :: "string list \<Rightarrow> string" where
  "joinSpace [] = []"
| "joinSpace [x] = x"
| "joinSpace (x # y # zs) = x @ '' '' @ joinSpace (y # zs)"

definition fmtV :: "string list \<Rightarrow> string" where
  "fmtV xs = ''['' @ joinSpace xs @ '']''"

section \<open>The store layer\<close>

text \<open>
  Modelled from the spec: the implementations of \<open>UserStore\<close>, \<open>TeamStore\<close>, \<open>GroupStore\<close> and
  \<open>UserGroupsStore\<close> (package \<open>store\<close>) are not part of the sources; only their interfaces
  (pkg/store/interfaces.go) are. Each operation follows its interface comment and
  section 4.2 of the specification: a miss is an empty container, never an error;
  \<open>AddGroup\<close> and \<open>RemoveGroup\<close> are idempotent and \<open>RemoveGroup\<close> deletes an entry that
  becomes empty; \<open>SetMembers\<close> keeps the backends and \<open>SetBackend\<close> keeps the members.
  Each operation is one cache call, which may fail (section 4.1: network errors
  propagate); a failed operation changes nothing.
\<close>

definition cacheCall :: "env \<Rightarrow> event \<Rightarrow> state \<Rightarrow> error option \<times> state" where
  "cacheCall env ev s = (cacheFault env (trace s @ [ev]), emit ev s)"

definition backendKeyOf :: "string \<Rightarrow> string \<Rightarrow> string" where
  "backendKeyOf backendName backendType = backendName @ ''_'' @ backendType"

definition lookupOr :: "'v \<Rightarrow> ('k \<times> 'v) list \<Rightarrow> 'k \<Rightarrow> 'v" where
  "lookupOr d m k = (case map_of m k of None \<Rightarrow> d | Some v \<Rightarrow> v)"

definition emptyGroupData :: GroupData where
  "emptyGroupData = \<lparr>gdMembers = [], gdBackends = []\<rparr>"

definition User_GetBackends ::
    "env \<Rightarrow> string \<Rightarrow> state \<Rightarrow> (error + (string \<times> string) list) \<times> state" where
  "User_GetBackends env email s =
     (case cacheCall env (UserGetBackends email) s of
        (Some e, s') \<Rightarrow> (Inl e, s')
      | (None, s') \<Rightarrow> (Inr (lookupOr [] (userStore s') email), s'))"

definition User_SetBackend ::
    "env \<Rightarrow> string \<Rightarrow> string \<Rightarrow> string \<Rightarrow> state \<Rightarrow> error option \<times> state" where
  "User_SetBackend env email backendKey backendID s =
     (case cacheCall env (UserSetBackend email backendKey backendID) s of
        (Some e, s') \<Rightarrow> (Some e, s')
      | (None, s') \<Rightarrow>
          (None, s'\<lparr>userStore := AList.update email
             (AList.update backendKey backendID (lookupOr [] (userStore s') email)) (userStore s')\<rparr>))"

definition User_Delete :: "env \<Rightarrow> string \<Rightarrow> state \<Rightarrow> error option \<times> state" where
  "User_Delete env email s =
     (case cacheCall env (UserDelete email) s of
        (Some e, s') \<Rightarrow> (Some e, s')
      | (None, s') \<Rightarrow> (None, s'\<lparr>userStore := AList.delete email (userStore s')\<rparr>))"

text \<open>Glob matching with \<open>*\<close> as the only wildcard (the two patterns that the offboarding
  job builds are \<open>*\<close> and \<open>*key*\<close>).\<close>

fun globMatch :: "string \<Rightarrow> string \<Rightarrow> bool" where
  "globMatch [] str = (str = [])"
| "globMatch (p # ps) [] = (p = CHR ''*'' \<and> globMatch ps [])"
| "globMatch (p # ps) (c # cs) =
     (if p = CHR ''*'' then globMatch ps (c # cs) \<or> globMatch (p # ps) cs
      else p = c \<and> globMatch ps cs)"

definition User_GetByPattern ::
    "env \<Rightarrow> string \<Rightarrow> state \<Rightarrow> (error + (string \<times> (string \<times> string) list) list) \<times> state" where
  "User_GetByPattern env pattern s =
     (case cacheCall env (UserGetByPattern pattern) s of
        (Some e, s') \<Rightarrow> (Inl e, s')
      | (None, s') \<Rightarrow> (Inr (filter (\<lambda>(email, backends). globMatch pattern email) (userStore s')), s'))"

definition Team_GetBackends ::
    "env \<Rightarrow> string \<Rightarrow> state \<Rightarrow> (error + (string \<times> string) list) \<times> state" where
  "Team_GetBackends env teamName s =
     (case cacheCall env (TeamGetBackends teamName) s of
        (Some e, s') \<Rightarrow> (Inl e, s')
      | (None, s') \<Rightarrow> (Inr (lookupOr [] (teamStore s') teamName), s'))"

definition Team_Delete :: "env \<Rightarrow> string \<Rightarrow> state \<Rightarrow> error option \<times> state" where
  "Team_Delete env teamName s =
     (case cacheCall env (TeamDelete teamName) s of
        (Some e, s') \<Rightarrow> (Some e, s')
      | (None, s') \<Rightarrow> (None, s'\<lparr>teamStore := AList.delete teamName (teamStore s')\<rparr>))"

definition Group_GetMembers ::
    "env \<Rightarrow> string \<Rightarrow> state \<Rightarrow> (error + string list) \<times> state" where
  "Group_GetMembers env groupName s =
     (case cacheCall env (GroupGetMembers groupName) s of
        (Some e, s') \<Rightarrow> (Inl e, s')
      | (None, s') \<Rightarrow> (Inr (gdMembers (lookupOr emptyGroupData (groupStore s') groupName)), s'))"

definition Group_SetMembers ::
    "env \<Rightarrow> string \<Rightarrow> string list \<Rightarrow> state \<Rightarrow> error option \<times> state" where
  "Group_SetMembers env groupName members s =
     (case cacheCall env (GroupSetMembers groupName members) s of
        (Some e, s') \<Rightarrow> (Some e, s')
      | (None, s') \<Rightarrow>
          (None, s'\<lparr>groupStore := AList.update groupName
             ((lookupOr emptyGroupData (groupStore s') groupName)\<lparr>gdMembers := members\<rparr>)
             (groupStore s')\<rparr>))"

definition Group_GetBackendID ::
    "env \<Rightarrow> string \<Rightarrow> string \<Rightarrow> string \<Rightarrow> state \<Rightarrow> (error + string) \<times> state" where
  "Group_GetBackendID env groupName backendName backendType s =
     (case cacheCall env (GroupGetBackendID groupName backendName backendType) s of
        (Some e, s') \<Rightarrow> (Inl e, s')
      | (None, s') \<Rightarrow>
          (Inr (case map_of (gdBackends (lookupOr emptyGroupData (groupStore s') groupName))
                       (backendKeyOf backendName backendType) of
                  None \<Rightarrow> []
                | Some info \<Rightarrow> biID info), s'))"

definition Group_SetBackend ::
    "env \<Rightarrow> string \<Rightarrow> string \<Rightarrow> string \<Rightarrow> string \<Rightarrow> state \<Rightarrow> error option \<times> state" where
  "Group_SetBackend env groupName backendName backendType backendID s =
     (case cacheCall env (GroupSetBackend groupName backendName backendType backendID) s of
        (Some e, s') \<Rightarrow> (Some e, s')
      | (None, s') \<Rightarrow>
          (let d = lookupOr emptyGroupData (groupStore s') groupName
           in (None, s'\<lparr>groupStore := AList.update groupName
                 (d\<lparr>gdBackends := AList.update (backendKeyOf backendName backendType)
                        \<lparr>biID = backendID, biName = backendName, biType = backendType\<rparr>
                        (gdBackends d)\<rparr>)
                 (groupStore s')\<rparr>)))"

definition Group_BackendExists ::
    "env \<Rightarrow> string \<Rightarrow> string \<Rightarrow> string \<Rightarrow> state \<Rightarrow> (error + bool) \<times> state" where
  "Group_BackendExists env groupName backendName backendType s =
     (case cacheCall env (GroupBackendExists groupName backendName backendType) s of
        (Some e, s') \<Rightarrow> (Inl e, s')
      | (None, s') \<Rightarrow>
          (Inr (map_of (gdBackends (lookupOr emptyGroupData (groupStore s') groupName))
                  (backendKeyOf backendName backendType) \<noteq> None), s'))"

definition Group_Delete :: "env \<Rightarrow> string \<Rightarrow> state \<Rightarrow> error option \<times> state" where
  "Group_Delete env groupName s =
     (case cacheCall env (GroupDelete groupName) s of
        (Some e, s') \<Rightarrow> (Some e, s')
      | (None, s') \<Rightarrow> (None, s'\<lparr>groupStore := AList.delete groupName (groupStore s')\<rparr>))"

definition UserGroups_AddGroup ::
    "env \<Rightarrow> string \<Rightarrow> string \<Rightarrow> state \<Rightarrow> error option \<times> state" where
  "UserGroups_AddGroup env email groupName s =
     (case cacheCall env (UserGroupsAddGroup email groupName) s of
        (Some e, s') \<Rightarrow> (Some e, s')
      | (None, s') \<Rightarrow>
          (let groups = lookupOr [] (userGroupsStore s') email
           in if groupName \<in> set groups then (None, s')
              else (None, s'\<lparr>userGroupsStore :=
                      AList.update email (groups @ [groupName]) (userGroupsStore s')\<rparr>)))"

definition UserGroups_RemoveGroup ::
    "env \<Rightarrow> string \<Rightarrow> string \<Rightarrow> state \<Rightarrow> error option \<times> state" where
  "UserGroups_RemoveGroup env email groupName s =
     (case cacheCall env (UserGroupsRemoveGroup email groupName) s of
        (Some e, s') \<Rightarrow> (Some e, s')
      | (None, s') \<Rightarrow>
          (let groups = filter (\<lambda>g. g \<noteq> groupName) (lookupOr [] (userGroupsStore s') email)
           in if groups = [] then (None, s'\<lparr>userGroupsStore := AList.delete email (userGroupsStore s')\<rparr>)
              else (None, s'\<lparr>userGroupsStore := AList.update email groups (userGroupsStore s')\<rparr>)))"

text \<open>The two views that the claims speak of: \<open>Group(G).members\<close> and \<open>UserGroups(e)\<close>.\<close>

definition groupMembers :: "state \<Rightarrow> string \<Rightarrow> string list" where
  "groupMembers s groupName = gdMembers (lookupOr emptyGroupData (groupStore s) groupName)"

definition userGroups :: "state \<Rightarrow> string \<Rightarrow> string list" where
  "userGroups s email = lookupOr [] (userGroupsStore s) email"

section \<open>The Group reconciler: cluster access and status helpers\<close>

text \<open>
  \<open>r.Update\<close> and \<open>r.Status().Update\<close> of the cluster client. The write is recorded with the
  resource that the reconciler passes; the oracle decides whether it fails. A successful
  \<open>Update\<close> stores everything but the status, a successful status update the status only
  (Group has a status subresource).
\<close>

definition clientUpdate :: "env \<Rightarrow> Group \<Rightarrow> state \<Rightarrow> error option \<times> state" where
  "clientUpdate env groupCR s =
     (let s' = emit (UpdateCR groupCR) s; key = (Namespace groupCR, Name groupCR)
      in case clusterWrite env (trace s') of
           Some e \<Rightarrow> (Some e, s')
         | None \<Rightarrow>
             (case map_of (objects s') key of
                None \<Rightarrow> (Some NotFoundError, s')
              | Some stored \<Rightarrow>
                  (None, s'\<lparr>objects := AList.update key (groupCR\<lparr>Status := Status stored\<rparr>) (objects s')\<rparr>)))"

definition statusUpdate :: "env \<Rightarrow> Group \<Rightarrow> state \<Rightarrow> error option \<times> state" where
  "statusUpdate env groupCR s =
     (let s' = emit (UpdateCRStatus groupCR) s; key = (Namespace groupCR, Name groupCR)
      in case clusterWrite env (trace s') of
           Some e \<Rightarrow> (Some e, s')
         | None \<Rightarrow>
             (case map_of (objects s') key of
                None \<Rightarrow> (Some NotFoundError, s')
              | Some stored \<Rightarrow>
                  (None, s'\<lparr>objects := AList.update key (stored\<lparr>Status := Status groupCR\<rparr>) (objects s')\<rparr>)))"

definition groupFinalizer :: string where
  "groupFinalizer = ''operator.dataverse.redhat.com/finalizer''"

text \<open>\<open>setCondition\<close> (855-868): replaces the first condition of the same type, or appends.\<close>

fun setCondition :: "Condition list \<Rightarrow> Condition \<Rightarrow> Condition list" where
  "setCondition [] newCondition = [newCondition]"
| "setCondition (cond # conditions) newCondition =
     (if cType cond = cType newCondition then newCondition # conditions
      else cond # setCondition conditions newCondition)"

text \<open>
  Modelled from the spec: \<open>Group.SetWaiting\<close> and \<open>Group.UpdateStatus\<close> (package
  \<open>api/v1alpha1\<close>) are not part of the sources. Section 4.7 of the specification: step 2
  marks the status Waiting, step 10 sets \<open>Ready = True\<close> iff there are no errors. Both set
  the one condition of type \<open>GroupReadyCondition\<close>: \<open>SetWaiting\<close> to Unknown,
  \<open>UpdateStatus isError\<close> to False when \<open>isError\<close> and to True otherwise. Reason and message
  of the three are the parameter \<open>conditionText\<close>.
\<close>

definition readyCondition :: "env \<Rightarrow> Group \<Rightarrow> ConditionStatus \<Rightarrow> Condition" where
  "readyCondition env groupCR st =
     \<lparr>cType = GroupReadyCondition env, cStatus = st, cReason = fst (conditionText env st),
      cMessage = snd (conditionText env st), cObservedGeneration = Generation groupCR\<rparr>"

definition withConditions :: "Group \<Rightarrow> Condition list \<Rightarrow> Group" where
  "withConditions groupCR conditions = groupCR\<lparr>Status := (Status groupCR)\<lparr>Conditions := conditions\<rparr>\<rparr>"

definition SetWaiting :: "env \<Rightarrow> Group \<Rightarrow> Group" where
  "SetWaiting env groupCR =
     withConditions groupCR
       (setCondition (Conditions (Status groupCR)) (readyCondition env groupCR ConditionUnknown))"

definition UpdateStatus :: "env \<Rightarrow> bool \<Rightarrow> Group \<Rightarrow> Group" where
  "UpdateStatus env isError groupCR =
     withConditions groupCR
       (setCondition (Conditions (Status groupCR))
          (readyCondition env groupCR (if isError then ConditionFalse else ConditionTrue)))"

text \<open>The condition of type \<open>GroupReadyCondition\<close> that a reader of the status finds.\<close>

definition readyOf :: "env \<Rightarrow> Group \<Rightarrow> Condition option" where
  "readyOf env groupCR = find (\<lambda>c. cType c = GroupReadyCondition env) (Conditions (Status groupCR))"

text \<open>\<open>isGroupConfigurable\<close> (836-852).\<close>

fun anyBackendMatches :: "env \<Rightarrow> string \<Rightarrow> Backend list \<Rightarrow> bool" where
  "anyBackendMatches env groupName [] = False"
| "anyBackendMatches env groupName (backend # backends) =
     (case transformedGroupName env (bType backend) groupName of
        Inr transformed \<Rightarrow> True
      | Inl err \<Rightarrow> anyBackendMatches env groupName backends)"

definition isGroupConfigurable :: "env \<Rightarrow> Group \<Rightarrow> bool" where
  "isGroupConfigurable env groupCR =
     (if length (Backends (Spec groupCR)) = 0 then False
      else anyBackendMatches env (GroupName (Spec groupCR)) (Backends (Spec groupCR)))"

text \<open>\<open>setOwnerReference\<close> (967-1029). \<open>desiredOwnerRefs\<close> is the Go map by UID; its entries
  are listed in the order of their first insertion.\<close>

fun fetchParents ::
    "env \<Rightarrow> objects \<Rightarrow> string \<Rightarrow> string list \<Rightarrow> (string \<times> OwnerReference) list
       \<Rightarrow> (error + (string \<times> OwnerReference) list) \<times> event list" where
  "fetchParents env objs ns [] desiredOwnerRefs = (Inr desiredOwnerRefs, [])"
| "fetchParents env objs ns (parentGroupName # rest) desiredOwnerRefs =
     (case map_of objs (ns, parentGroupName) of
        None \<Rightarrow> (Inl NotFoundError, [GetParentCR (ns, parentGroupName)])
      | Some parentGroupCR \<Rightarrow>
          (case fetchParents env objs ns rest
                  (AList.update (UID parentGroupCR)
                     \<lparr>orAPIVersion = GroupVersion env, orKind = ''Group'',
                      orName = Name parentGroupCR, orUID = UID parentGroupCR,
                      orBlockOwnerDeletion = True\<rparr> desiredOwnerRefs) of
             (r, evs) \<Rightarrow> (r, GetParentCR (ns, parentGroupName) # evs)))"

definition isGroupOwnerRef :: "env \<Rightarrow> OwnerReference \<Rightarrow> bool" where
  "isGroupOwnerRef env ref = (orKind ref = ''Group'' \<and> orAPIVersion ref = GroupVersion env)"

definition setOwnerReference :: "env \<Rightarrow> Group \<Rightarrow> state \<Rightarrow> error option \<times> Group \<times> state" where
  "setOwnerReference env groupCR s =
     (case fetchParents env (objects s) (Namespace groupCR) (Groups (Members (Spec groupCR))) [] of
        (Inl e, evs) \<Rightarrow> (Some e, groupCR, s\<lparr>trace := trace s @ evs\<rparr>)
      | (Inr desiredOwnerRefs, evs) \<Rightarrow>
          (let s1 = s\<lparr>trace := trace s @ evs\<rparr>;
               nonGroupOwnerRefs = filter (\<lambda>ref. \<not> isGroupOwnerRef env ref) (OwnerReferences groupCR);
               existingGroupOwnerRefs =
                 remdups (map orUID (filter (isGroupOwnerRef env) (OwnerReferences groupCR)));
               needsUpdate =
                 (length desiredOwnerRefs \<noteq> length existingGroupOwnerRefs \<or>
                  list_ex (\<lambda>uid. uid \<notin> set existingGroupOwnerRefs) (map fst desiredOwnerRefs))
           in if \<not> needsUpdate then (None, groupCR, s1)
              else (let groupCR' = groupCR\<lparr>OwnerReferences := nonGroupOwnerRefs @ map snd desiredOwnerRefs\<rparr>
                    in case clientUpdate env groupCR' s1 of (r, s2) \<Rightarrow> (r, groupCR', s2))))"

text \<open>\<open>controllerutils.RemoveForceReconcileLabel\<close> (1160-1177). A successful \<open>c.Update\<close> decodes
  the answer of the cluster into the object: after it the object in memory is the stored
  one, with the status that the cluster has and not the one that \<open>Reconcile\<close> has set in
  memory since the last status update.\<close>

definition RemoveForceReconcileLabel :: "env \<Rightarrow> Group \<Rightarrow> state \<Rightarrow> error option \<times> Group \<times> state" where
  "RemoveForceReconcileLabel env obj s =
     (case Labels obj of
        None \<Rightarrow> (None, obj, s)
      | Some labels \<Rightarrow>
          (if map_of labels (ForceReconcileLabel env) = None then (None, obj, s)
           else (let obj' = obj\<lparr>Labels := Some (AList.delete (ForceReconcileLabel env) labels)\<rparr>
                 in case clientUpdate env obj' s of
                      (Some e, s') \<Rightarrow> (Some e, obj', s')
                    | (None, s') \<Rightarrow>
                        (None, lookupOr obj' (objects s') (Namespace obj', Name obj'), s'))))"

section \<open>The Group reconciler: LDAP and per-backend processing\<close>

text \<open>\<open>fetchLDAPData\<close> (212-265). \<open>uniqueUIDs\<close> is the Go map whose values are all true; the
  list holds its keys in the order of insertion.\<close>

record LDAPFetchResult =
  CurrentMembers :: "string list"
  ActiveUserList :: "string list"

fun fetchLDAPDataLoop ::
    "env \<Rightarrow> string list \<Rightarrow> string list \<Rightarrow> string list \<Rightarrow> state
       \<Rightarrow> (string list \<times> string list) \<times> state" where
  "fetchLDAPDataLoop env [] uniqueUIDs currentMembers s = ((uniqueUIDs, currentMembers), s)"
| "fetchLDAPDataLoop env (user # users) uniqueUIDs currentMembers s =
     (let s1 = emit (LDAPGetUser user) s
      in case GetUserLDAPData env (trace s1) of
           Inl err \<Rightarrow> fetchLDAPDataLoop env users (removeAll user uniqueUIDs) currentMembers s1
         | Inr ldapUserData \<Rightarrow>
             (case MapToStruct env ldapUserData of
                Inl err \<Rightarrow> fetchLDAPDataLoop env users uniqueUIDs currentMembers s1
              | Inr ldapUser \<Rightarrow>
                  fetchLDAPDataLoop env users
                    (if luUID ldapUser \<in> set uniqueUIDs then uniqueUIDs else uniqueUIDs @ [luUID ldapUser])
                    (currentMembers @ [luEmail ldapUser])
                    (s1\<lparr>allLdapUserData := AList.update user ldapUser (allLdapUserData s1)\<rparr>)))"

definition fetchLDAPData :: "env \<Rightarrow> string list \<Rightarrow> state \<Rightarrow> LDAPFetchResult \<times> state" where
  "fetchLDAPData env uniqueMembers s =
     (case fetchLDAPDataLoop env uniqueMembers [] [] (s\<lparr>allLdapUserData := []\<rparr>) of
        ((uniqueUIDs, currentMembers), s') \<Rightarrow>
          (\<lparr>CurrentMembers = currentMembers, ActiveUserList = uniqueUIDs\<rparr>, s'))"

text \<open>\<open>fetchOrCreateTeam\<close> (759-832). Step 1 reads the Group store under the logical group
  name, step 2 the Team store under the transformed name, step 3 creates the team.\<close>

definition fetchOrCreateTeam ::
    "env \<Rightarrow> string \<Rightarrow> Client \<Rightarrow> BackendParams \<Rightarrow> state \<Rightarrow> (error + string) \<times> state" where
  "fetchOrCreateTeam env groupName backendClient backendParams s =
     (let backendName = bpName backendParams; backendType = bpType backendParams
      in case transformedGroupName env backendType groupName of
           Inl err \<Rightarrow> (Inl err, s)
         | Inr transformed \<Rightarrow>
         (let backendKey = backendKeyOf backendName backendType
          in case Group_GetBackendID env groupName backendName backendType s of
               (Inl err, s1) \<Rightarrow> (Inl err, s1)
             | (Inr teamID, s1) \<Rightarrow>
             (if teamID \<noteq> [] then (Inr teamID, s1)
              else (case Team_GetBackends env transformed s1 of
                 (Inl err, s2) \<Rightarrow> (Inl err, s2)
               | (Inr teamBackends, s2) \<Rightarrow>
               (if map_of teamBackends backendKey \<noteq> None \<and> lookupOr [] teamBackends backendKey \<noteq> []
                then (case Group_SetBackend env groupName backendName backendType
                             (lookupOr [] teamBackends backendKey) s2 of
                        (Some err, s3) \<Rightarrow> (Inl err, s3)
                      | (None, s3) \<Rightarrow> (Inr (lookupOr [] teamBackends backendKey), s3))
                else (let team = \<lparr>tID = [], tName = transformed,
                                   tDescription = ''team for '' @ groupName,
                                   tRole = AccountReviewerRole env,
                                   tTeamParams = bpGroupParams backendParams\<rparr>;
                          s3 = emit (CreateTeam (clKey backendClient) team) s2
                      in case createTeam env (trace s3) of
                           Inl err \<Rightarrow> (Inl err, s3)
                         | Inr newTeam \<Rightarrow>
                             (case Group_SetBackend env groupName backendName backendType (tID newTeam) s3 of
                                (Some err, s4) \<Rightarrow> (Inl err, s4)
                              | (None, s4) \<Rightarrow> (Inr (tID newTeam), s4))))))))"

text \<open>\<open>createUsersInBackendAndCache\<close> (706-757).\<close>

fun createUsersInBackendAndCache ::
    "env \<Rightarrow> string list \<Rightarrow> string \<Rightarrow> string \<Rightarrow> Client \<Rightarrow> state \<Rightarrow> error option \<times> state" where
  "createUsersInBackendAndCache env [] backendName backendType backendClient s = (None, s)"
| "createUsersInBackendAndCache env (user # users) backendName backendType backendClient s =
     (case map_of (allLdapUserData s) user of
        None \<Rightarrow> createUsersInBackendAndCache env users backendName backendType backendClient s
      | Some userDetails \<Rightarrow>
      (case User_GetBackends env (luEmail userDetails) s of
         (Inl err, s1) \<Rightarrow> (Some err, s1)
       | (Inr userBackends, s1) \<Rightarrow>
       (if map_of userBackends (backendKeyOf backendName backendType) \<noteq> None \<and>
           lookupOr [] userBackends (backendKeyOf backendName backendType) \<noteq> []
        then createUsersInBackendAndCache env users backendName backendType backendClient s1
        else (let s2 = emit (CreateUser (clKey backendClient)
                          \<lparr>uID = [], uEmail = luEmail userDetails, uUserName = user,
                           uRole = AccountReviewerRole env,
                           uFirstName = luDisplayName userDetails, uLastName = luSN userDetails\<rparr>) s1
              in case createUser env (trace s2) of
                   Inl err \<Rightarrow> (Some err, s2)
                 | Inr newUser \<Rightarrow>
                     (case User_SetBackend env (luEmail userDetails)
                             (backendKeyOf backendName backendType) (uID newUser) s2 of
                        (Some err, s3) \<Rightarrow> (Some err, s3)
                      | (None, s3) \<Rightarrow>
                          createUsersInBackendAndCache env users backendName backendType backendClient s3)))))"

text \<open>\<open>processUsers\<close> (649-704). The first loop is \<open>collectUserIDs\<close>; it returns
  \<open>userIDsToSync\<close> and the members it has put into \<open>usersToRemove\<close>. \<open>existingTeamMembers\<close> is
  the Go map that the adapter returned; the model has its entries as a list, and the second
  loop ranges over its keys in the order of the list.\<close>

fun collectUserIDs ::
    "env \<Rightarrow> string list \<Rightarrow> (string \<times> User) list \<Rightarrow> string \<Rightarrow> string list \<Rightarrow> string list \<Rightarrow> state
       \<Rightarrow> (error + string list \<times> string list) \<times> state" where
  "collectUserIDs env [] existingTeamMembers backendKey userIDsToSync usersToRemove s =
     (Inr (userIDsToSync, usersToRemove), s)"
| "collectUserIDs env (user # groupUsers) existingTeamMembers backendKey userIDsToSync usersToRemove s =
     (case map_of (allLdapUserData s) user of
        None \<Rightarrow>
          collectUserIDs env groupUsers existingTeamMembers backendKey userIDsToSync
            (if map_of existingTeamMembers user \<noteq> None then usersToRemove @ [user] else usersToRemove) s
      | Some userDetails \<Rightarrow>
          (case User_GetBackends env (luEmail userDetails) s of
             (Inl err, s1) \<Rightarrow> (Inl err, s1)
           | (Inr userBackends, s1) \<Rightarrow>
               (if lookupOr [] userBackends backendKey = [] then
                  (Inl (Error ''user ID not found in cache''), s1)
                else collectUserIDs env groupUsers existingTeamMembers backendKey
                       (userIDsToSync @ [lookupOr [] userBackends backendKey]) usersToRemove s1)))"

definition processUsers ::
    "env \<Rightarrow> string list \<Rightarrow> (string \<times> User) list \<Rightarrow> string \<Rightarrow> string \<Rightarrow> state
       \<Rightarrow> (error + string list \<times> string list) \<times> state" where
  "processUsers env groupUsers existingTeamMembers backendName backendType s =
     (case collectUserIDs env groupUsers existingTeamMembers (backendKeyOf backendName backendType) [] [] s of
        (Inl err, s1) \<Rightarrow> (Inl err, s1)
      | (Inr (userIDsToSync, usersToRemove), s1) \<Rightarrow>
          (Inr (filter (\<lambda>userID. map_of existingTeamMembers userID = None) userIDsToSync,
                usersToRemove @
                  filter (\<lambda>userID. userID \<notin> set userIDsToSync) (remdups (map fst existingTeamMembers))),
           s1))"

text \<open>\<open>isGroupCRHasDependants\<close> (1111-1118), \<open>ldapDependantChecks\<close> (1067-1109) and
  \<open>setupLdapSync\<close> (1031-1065). A missing key of \<open>BackendMap\<close> reads as Go's zero value.\<close>

definition isGroupCRHasDependants :: "Backend list \<Rightarrow> Dependant \<Rightarrow> bool" where
  "isGroupCRHasDependants backends dependsOn =
     list_ex (\<lambda>backend. bType backend = depType dependsOn \<and> bName backend = depName dependsOn) backends"

definition ldapDependantChecks :: "env \<Rightarrow> Dependant \<Rightarrow> string \<Rightarrow> state \<Rightarrow> error option \<times> state" where
  "ldapDependantChecks env dependsOn groupName s =
     (case map_of (BackendMap env) (depType dependsOn) of
        None \<Rightarrow> (Some (Error (''ldap dependant type '' @ depType dependsOn @ '' not found in BackendMap'')), s)
      | Some dependantType \<Rightarrow>
      (case map_of dependantType (depName dependsOn) of
         None \<Rightarrow> (Some (Error (''ldap dependant name '' @ depName dependsOn @ '' not found in BackendMap['' @
                     depType dependsOn @ '']'')), s)
       | Some dependantName \<Rightarrow>
       (if \<not> Enabled dependantName then (Some (Error (depType dependsOn @ '' is not enabled'')), s)
        else (case Group_BackendExists env groupName (depName dependsOn) (depType dependsOn) s of
           (Inr True, s1) \<Rightarrow> (None, s1)
         | (r, s1) \<Rightarrow>
         (case transformedGroupName env (depType dependsOn) groupName of
            Inl err \<Rightarrow> (Some err, s1)
          | Inr transformed \<Rightarrow>
          (case Team_GetBackends env transformed s1 of
             (Inl err, s2) \<Rightarrow> (Some err, s2)
           | (Inr teamBackends, s2) \<Rightarrow>
               (if map_of teamBackends (backendKeyOf (depName dependsOn) (depType dependsOn)) \<noteq> None
                then (None, s2)
                else (Some (Error (''dependent backend '' @
                        backendKeyOf (depName dependsOn) (depType dependsOn) @
                        '' not found in cache for group '' @ groupName)), s2))))))))"

definition setupLdapSync ::
    "env \<Rightarrow> string \<Rightarrow> string \<Rightarrow> Client \<Rightarrow> string \<Rightarrow> Backend list \<Rightarrow> state \<Rightarrow> (error + bool) \<times> state" where
  "setupLdapSync env backendType backendName backendClient groupName backends s =
     (if backendType = ''gitlab'' then
        (let dependsOn = DependsOn (lookupOr \<lparr>Enabled = False, DependsOn = \<lparr>depName = [], depType = []\<rparr>\<rparr>
                            (lookupOr [] (BackendMap env) ''gitlab'') backendName)
         in if depType dependsOn = [] \<and> depName dependsOn = [] then (Inr False, s)
            else (case ldapDependantChecks env dependsOn groupName s of
                    (Some err, s1) \<Rightarrow> (Inl err, s1)
                  | (None, s1) \<Rightarrow>
                      (if \<not> isGroupCRHasDependants backends dependsOn then
                         (Inl (Error (''ldap dependants for '' @ backendType @
                                 '' backend doesn't exist in group CR'')), s1)
                       else if \<not> clIsGitlab backendClient then
                         (Inl (Error ''backend client is not a GitlabClient''), s1)
                       else (Inr True, emit (SetLdapSync (clKey backendClient) groupName) s1))))
      else (Inr False, s))"

text \<open>An adapter call that returns only an error.\<close>

definition backendCall :: "env \<Rightarrow> event \<Rightarrow> state \<Rightarrow> error option \<times> state" where
  "backendCall env ev s = (backendAck env (trace s @ [ev]), emit ev s)"

text \<open>\<open>processSingleBackend\<close> (392-477).\<close>

definition syncTeamMembers ::
    "env \<Rightarrow> Client \<Rightarrow> string \<Rightarrow> bool \<Rightarrow> string list \<Rightarrow> string list \<Rightarrow> state \<Rightarrow> error option \<times> state" where
  "syncTeamMembers env backendClient teamID isLdapSync usersToAdd usersToRemove s =
     (if \<not> isLdapSync then
        (case (if length usersToAdd > 0
               then backendCall env (AddUserToTeam (clKey backendClient) teamID usersToAdd) s
               else (None, s)) of
           (Some err, s1) \<Rightarrow> (Some err, s1)
         | (None, s1) \<Rightarrow>
             (if length usersToRemove > 0
              then backendCall env (RemoveUserFromTeam (clKey backendClient) teamID usersToRemove) s1
              else (None, s1)))
      else (None, s))"

definition processSingleBackend ::
    "env \<Rightarrow> Group \<Rightarrow> Backend \<Rightarrow> string list \<Rightarrow> TeamParams \<Rightarrow> state \<Rightarrow> error option \<times> state" where
  "processSingleBackend env groupCR backend uniqueMembers backendGroupParams s =
     (let s0 = emit (ClientsNew (bName backend) (bType backend)) s
      in case clientsNew env (trace s0) of
           Inl err \<Rightarrow> (Some err, s0)
         | Inr backendClient \<Rightarrow>
         (case setupLdapSync env (bType backend) (bName backend) backendClient
                 (GroupName (Spec groupCR)) (Backends (Spec groupCR)) s0 of
            (Inl err, s1) \<Rightarrow> (Some err, s1)
          | (Inr isLdapSync, s1) \<Rightarrow>
          (case fetchOrCreateTeam env (GroupName (Spec groupCR)) backendClient
                  \<lparr>bpName = bName backend, bpType = bType backend, bpGroupParams = backendGroupParams\<rparr> s1 of
             (Inl err, s2) \<Rightarrow> (Some err, s2)
           | (Inr teamID, s2) \<Rightarrow>
           (case createUsersInBackendAndCache env uniqueMembers (bName backend) (bType backend)
                   backendClient s2 of
              (Some err, s3) \<Rightarrow> (Some err, s3)
            | (None, s3) \<Rightarrow>
            (let s4 = emit (FetchTeamMembersByTeamID (clKey backendClient) teamID) s3
             in case fetchTeamMembersByTeamID env (trace s4) of
                  Inl err \<Rightarrow> (Some err, s4)
                | Inr members \<Rightarrow>
                (case processUsers env uniqueMembers members (bName backend) (bType backend) s4 of
                   (Inl err, s5) \<Rightarrow> (Some err, s5)
                 | (Inr (usersToAdd, usersToRemove), s5) \<Rightarrow>
                     syncTeamMembers env backendClient teamID isLdapSync usersToAdd usersToRemove s5))))))"

text \<open>\<open>processAllBackends\<close> (330-389). \<open>backendErrors\<close> is the Go map from backend type to the
  map from backend name to message.\<close>

type_synonym backendErrors = "(string \<times> (string \<times> string) list) list"

definition recordBackendError :: "backendErrors \<Rightarrow> string \<Rightarrow> string \<Rightarrow> string \<Rightarrow> backendErrors" where
  "recordBackendError backendErrors backendType backendName msg =
     AList.update backendType (AList.update backendName msg (lookupOr [] backendErrors backendType))
       backendErrors"

fun processGroupParams ::
    "string list \<Rightarrow> GroupParam list \<Rightarrow> backendErrors \<Rightarrow> (string \<times> TeamParams) list
       \<Rightarrow> backendErrors \<times> (string \<times> TeamParams) list" where
  "processGroupParams validBackends [] backendErrors groupParamsByBackend =
     (backendErrors, groupParamsByBackend)"
| "processGroupParams validBackends (param # params) backendErrors groupParamsByBackend =
     (if backendKeyOf (gpName param) (gpBackend param) \<notin> set validBackends then
        processGroupParams validBackends params
          (recordBackendError backendErrors (gpBackend param) (gpName param)
             (''group param refers to non-existent backend: '' @ gpBackend param @ ''/'' @ gpName param))
          groupParamsByBackend
      else if gpProperty param = [] then
        processGroupParams validBackends params
          (recordBackendError backendErrors (gpBackend param) (gpName param)
             (''group param property is empty for backend: '' @ gpBackend param @ ''/'' @ gpName param))
          groupParamsByBackend
      else
        processGroupParams validBackends params backendErrors
          (AList.update (backendKeyOf (gpName param) (gpBackend param))
             \<lparr>tpProperty = gpProperty param, tpValue = gpValue param\<rparr> groupParamsByBackend))"

fun processBackends ::
    "env \<Rightarrow> Group \<Rightarrow> string list \<Rightarrow> (string \<times> TeamParams) list \<Rightarrow> Backend list \<Rightarrow> backendErrors
       \<Rightarrow> state \<Rightarrow> backendErrors \<times> state" where
  "processBackends env groupCR uniqueMembers groupParamsByBackend [] backendErrors s = (backendErrors, s)"
| "processBackends env groupCR uniqueMembers groupParamsByBackend (backend # backends) backendErrors s =
     (case processSingleBackend env groupCR backend uniqueMembers
             (lookupOr \<lparr>tpProperty = [], tpValue = []\<rparr> groupParamsByBackend
                (backendKeyOf (bName backend) (bType backend))) s of
        (Some err, s') \<Rightarrow>
          processBackends env groupCR uniqueMembers groupParamsByBackend backends
            (recordBackendError backendErrors (bType backend) (bName backend) (errorString err)) s'
      | (None, s') \<Rightarrow>
          processBackends env groupCR uniqueMembers groupParamsByBackend backends backendErrors s')"

definition processAllBackends ::
    "env \<Rightarrow> Group \<Rightarrow> string list \<Rightarrow> state \<Rightarrow> backendErrors \<times> state" where
  "processAllBackends env groupCR uniqueMembers s =
     (case processGroupParams
             (map (\<lambda>backend. backendKeyOf (bName backend) (bType backend)) (Backends (Spec groupCR)))
             (GroupParams (Spec groupCR)) [] [] of
        (backendErrors, groupParamsByBackend) \<Rightarrow>
          processBackends env groupCR uniqueMembers groupParamsByBackend (Backends (Spec groupCR))
            backendErrors s)"

text \<open>The test of \<open>Reconcile\<close> (175-181) and \<open>updateStatusAndHandleErrors\<close> (509-515).\<close>

definition hasErrors :: "backendErrors \<Rightarrow> bool" where
  "hasErrors backendErrors = list_ex (\<lambda>(backendType, m). length m > 0) backendErrors"

section \<open>The Group reconciler: cache indexes, status, deletion, Reconcile\<close>

text \<open>\<open>updateCacheIndexes\<close> (271-327). The two loops collect the messages of failed index
  updates; the loop over \<open>previousMembersSet\<close> ranges over the distinct previous members.\<close>

fun addGroupToMembers :: "env \<Rightarrow> string \<Rightarrow> string list \<Rightarrow> string list \<Rightarrow> state \<Rightarrow> string list \<times> state" where
  "addGroupToMembers env groupName [] errors s = (errors, s)"
| "addGroupToMembers env groupName (email # emails) errors s =
     (case UserGroups_AddGroup env email groupName s of
        (Some err, s') \<Rightarrow>
          addGroupToMembers env groupName emails
            (errors @ [''failed to add group '' @ groupName @ '' to user '' @ email @ '': '' @ errorString err]) s'
      | (None, s') \<Rightarrow> addGroupToMembers env groupName emails errors s')"

fun removeGroupFromFormerMembers ::
    "env \<Rightarrow> string \<Rightarrow> string list \<Rightarrow> string list \<Rightarrow> string list \<Rightarrow> state \<Rightarrow> string list \<times> state" where
  "removeGroupFromFormerMembers env groupName currentMembers [] errors s = (errors, s)"
| "removeGroupFromFormerMembers env groupName currentMembers (email # emails) errors s =
     (if email \<notin> set currentMembers then
        (case UserGroups_RemoveGroup env email groupName s of
           (Some err, s') \<Rightarrow>
             removeGroupFromFormerMembers env groupName currentMembers emails
               (errors @ [''failed to remove group '' @ groupName @ '' from user '' @ email @ '': '' @
                          errorString err]) s'
         | (None, s') \<Rightarrow> removeGroupFromFormerMembers env groupName currentMembers emails errors s')
      else removeGroupFromFormerMembers env groupName currentMembers emails errors s)"

definition updateCacheIndexes :: "env \<Rightarrow> string \<Rightarrow> LDAPFetchResult \<Rightarrow> state \<Rightarrow> error option \<times> state" where
  "updateCacheIndexes env groupName ldapResult s =
     (case (case Group_GetMembers env groupName s of
              (Inl err, s0) \<Rightarrow> ([], s0)
            | (Inr members, s0) \<Rightarrow> (members, s0)) of
        (previousMembers, s0) \<Rightarrow>
        (case addGroupToMembers env groupName (CurrentMembers ldapResult) [] s0 of
           (errors1, s1) \<Rightarrow>
           (case removeGroupFromFormerMembers env groupName (CurrentMembers ldapResult)
                   (remdups previousMembers) errors1 s1 of
              (errors2, s2) \<Rightarrow>
              (case Group_SetMembers env groupName (CurrentMembers ldapResult) s2 of
                 (Some err, s3) \<Rightarrow>
                   (Some (Error (''failed to update group members for '' @ groupName @ '': '' @
                            errorString err)), s3)
               | (None, s3) \<Rightarrow>
                   (if length errors2 > 0
                    then (Some (Error (''cache index update completed with '' @ fmtD (length errors2) @
                                        '' errors: '' @ fmtV errors2)), s3)
                    else (None, s3))))))"

text \<open>\<open>updateStatusAndHandleErrors\<close> (480-530). It returns the error and the resource as the
  function leaves it in memory.\<close>

definition backendStatusOf :: "backendErrors \<Rightarrow> Backend \<Rightarrow> BackendStatus" where
  "backendStatusOf backendErrors backend =
     (case map_of backendErrors (bType backend) of
        Some typeMap \<Rightarrow>
          (case map_of typeMap (bName backend) of
             Some msg \<Rightarrow> \<lparr>bsName = bName backend, bsType = bType backend, bsStatus = False, bsMessage = msg\<rparr>
           | None \<Rightarrow> \<lparr>bsName = bName backend, bsType = bType backend, bsStatus = True,
                      bsMessage = ''Successful''\<rparr>)
      | None \<Rightarrow> \<lparr>bsName = bName backend, bsType = bType backend, bsStatus = True,
                 bsMessage = ''Successful''\<rparr>)"

definition updateStatusAndHandleErrors ::
    "env \<Rightarrow> Group \<Rightarrow> backendErrors \<Rightarrow> state \<Rightarrow> error option \<times> Group \<times> state" where
  "updateStatusAndHandleErrors env groupCR backendErrors s =
     (let groupCR1 = groupCR\<lparr>Status := (Status groupCR)\<lparr>BackendsStatus :=
                        map (backendStatusOf backendErrors) (Backends (Spec groupCR))\<rparr>\<rparr>;
          groupCR2 = UpdateStatus env False groupCR1;
          groupCR3 = (if hasErrors backendErrors then UpdateStatus env True groupCR2 else groupCR2)
      in case statusUpdate env groupCR3 s of
           (Some updateStatusErr, s') \<Rightarrow> (Some updateStatusErr, groupCR3, s')
         | (None, s') \<Rightarrow>
             (if hasErrors backendErrors
              then (Some (Error ''failed to reconcile all backends''), groupCR3, s')
              else (None, groupCR3, s')))"

text \<open>The deletion path: \<open>cleanupUserGroupsIndex\<close> (559-577), \<open>deleteBackendsTeam\<close> (579-647)
  and \<open>handleDeletion\<close> (533-554).

  Modelled from the spec: \<open>utils.GetTransformedGroupNameOrFallback\<close> is not part of the
  sources; section 4.5: it falls back to the original name when no pattern matches.\<close>

definition GetTransformedGroupNameOrFallback :: "env \<Rightarrow> string \<Rightarrow> string \<Rightarrow> string" where
  "GetTransformedGroupNameOrFallback env backendType groupName =
     (case transformedGroupName env backendType groupName of
        Inl err \<Rightarrow> groupName
      | Inr transformed \<Rightarrow> transformed)"

fun removeGroupFromMembers :: "env \<Rightarrow> string \<Rightarrow> string list \<Rightarrow> state \<Rightarrow> state" where
  "removeGroupFromMembers env groupName [] s = s"
| "removeGroupFromMembers env groupName (email # members) s =
     removeGroupFromMembers env groupName members (snd (UserGroups_RemoveGroup env email groupName s))"

definition cleanupUserGroupsIndex :: "env \<Rightarrow> string \<Rightarrow> state \<Rightarrow> state" where
  "cleanupUserGroupsIndex env groupName s =
     (case Group_GetMembers env groupName s of
        (Inl err, s') \<Rightarrow> s'
      | (Inr members, s') \<Rightarrow> removeGroupFromMembers env groupName members s')"

fun deleteTeams :: "env \<Rightarrow> string \<Rightarrow> Backend list \<Rightarrow> bool \<Rightarrow> state \<Rightarrow> bool \<times> state" where
  "deleteTeams env groupName [] hasErrs s = (hasErrs, s)"
| "deleteTeams env groupName (backend # backends) hasErrs s =
     (let transformed = GetTransformedGroupNameOrFallback env (bType backend) groupName;
          s0 = emit (ClientsNew (bName backend) (bType backend)) s
      in case clientsNew env (trace s0) of
           Inl err \<Rightarrow> deleteTeams env groupName backends True s0
         | Inr backendClient \<Rightarrow>
             (case (case Group_GetBackendID env groupName (bName backend) (bType backend) s0 of
                      (Inl err, s1) \<Rightarrow> (True, s1)
                    | (Inr teamID, s1) \<Rightarrow>
                        (if teamID \<noteq> [] then
                           (case backendCall env (DeleteTeamByID (clKey backendClient) teamID) s1 of
                              (Some err, s2) \<Rightarrow> (True, s2)
                            | (None, s2) \<Rightarrow> (hasErrs, s2))
                         else (hasErrs, s1))) of
                (hasErrs', s2) \<Rightarrow>
                  deleteTeams env groupName backends hasErrs'
                    (if transformed \<noteq> [] then snd (Team_Delete env transformed s2) else s2)))"

definition deleteBackendsTeam :: "env \<Rightarrow> Group \<Rightarrow> state \<Rightarrow> error option \<times> state" where
  "deleteBackendsTeam env groupCR s =
     (case deleteTeams env (GroupName (Spec groupCR)) (Backends (Spec groupCR)) False s of
        (hasErrs, s1) \<Rightarrow>
          (case Group_Delete env (GroupName (Spec groupCR)) s1 of
             (r, s2) \<Rightarrow>
               (if hasErrs \<or> r \<noteq> None
                then (Some (Error ''finalizer completed with errors during team deletion''), s2)
                else (None, s2))))"

definition handleDeletion :: "env \<Rightarrow> Group \<Rightarrow> state \<Rightarrow> error option \<times> state" where
  "handleDeletion env groupCR s =
     (if groupFinalizer \<in> set (Finalizers groupCR) then
        (let s0 = cleanupUserGroupsIndex env (GroupName (Spec groupCR)) (emit CacheLock s)
         in case deleteBackendsTeam env groupCR s0 of
              (Some err, s1) \<Rightarrow> (Some err, emit CacheUnlock s1)
            | (None, s1) \<Rightarrow>
                (case clientUpdate env
                        (groupCR\<lparr>Finalizers := filter (\<lambda>f. f \<noteq> groupFinalizer) (Finalizers groupCR)\<rparr>) s1 of
                   (r, s2) \<Rightarrow> (r, emit CacheUnlock s2)))
      else (None, s))"

text \<open>\<open>Reconcile\<close> (81-201), in its three parts. \<open>reconcilePrelude\<close> is lines 87-124: it
  either ends the reconcile (\<open>Inl\<close> holds what \<open>Reconcile\<close> returns) or hands on the resource
  (\<open>Inr\<close>); \<open>ensureFinalizer\<close> is its lines 99-104. \<open>markNonConfigurable\<close> is the body of the configurability gate (129-145).
  \<open>reconcileLocked\<close> is lines 158-201, from \<open>CacheMutex.Lock\<close> to the return; the deferred
  \<open>Unlock\<close> is the last event of each of its returns.\<close>

definition ensureFinalizer :: "env \<Rightarrow> Group \<Rightarrow> state \<Rightarrow> error option \<times> Group \<times> state" where
  "ensureFinalizer env groupCR s =
     (if groupFinalizer \<notin> set (Finalizers groupCR)
      then (case clientUpdate env (groupCR\<lparr>Finalizers := Finalizers groupCR @ [groupFinalizer]\<rparr>) s of
              (r, s') \<Rightarrow> (r, groupCR\<lparr>Finalizers := Finalizers groupCR @ [groupFinalizer]\<rparr>, s'))
      else (None, groupCR, s))"

definition reconcilePrelude :: "env \<Rightarrow> string \<times> string \<Rightarrow> state \<Rightarrow> (error option + Group) \<times> state" where
  "reconcilePrelude env req s =
     (case map_of (objects s) req of
        None \<Rightarrow> (Inl None, emit (GetGroupCR req) s)
      | Some groupCR \<Rightarrow>
      (if DeletionTimestamp groupCR \<noteq> None then
         (case handleDeletion env groupCR (emit (GetGroupCR req) s) of (r, s1) \<Rightarrow> (Inl r, s1))
       else
         (case ensureFinalizer env groupCR (emit (GetGroupCR req) s) of
            (Some err, groupCR1, s1) \<Rightarrow> (Inl (Some err), s1)
          | (None, groupCR1, s1) \<Rightarrow>
          (case setOwnerReference env groupCR1 s1 of
             (Some err, groupCR2, s2) \<Rightarrow> (Inl (Some err), s2)
           | (None, groupCR2, s2) \<Rightarrow>
               (case statusUpdate env (SetWaiting env groupCR2) s2 of
                  (Some err, s3) \<Rightarrow> (Inl (Some err), s3)
                | (None, s3) \<Rightarrow> (Inr (SetWaiting env groupCR2), s3))))))"

definition nonConfigurableCondition :: "env \<Rightarrow> Group \<Rightarrow> Condition" where
  "nonConfigurableCondition env groupCR =
     \<lparr>cType = GroupReadyCondition env, cStatus = ConditionFalse, cReason = ''NonConfigurable'',
      cMessage = ''Group is not configurable - no matching patterns found in backend configuration'',
      cObservedGeneration = Generation groupCR\<rparr>"

definition markNonConfigurable :: "env \<Rightarrow> Group \<Rightarrow> state \<Rightarrow> error option \<times> state" where
  "markNonConfigurable env groupCR s =
     statusUpdate env
       (groupCR\<lparr>Status := (Status groupCR)\<lparr>ReconciledUsers := [],
          Conditions := setCondition (Conditions (Status groupCR)) (nonConfigurableCondition env groupCR)\<rparr>\<rparr>) s"

definition reconcileLocked :: "env \<Rightarrow> Group \<Rightarrow> string list \<Rightarrow> state \<Rightarrow> error option \<times> state" where
  "reconcileLocked env groupCR uniqueMembers s =
     (case fetchLDAPData env uniqueMembers (emit CacheLock s) of
        (ldapResult, s1) \<Rightarrow>
        (case processAllBackends env groupCR uniqueMembers s1 of
           (backendErrors, s2) \<Rightarrow>
           (case RemoveForceReconcileLabel env groupCR
                   (if \<not> hasErrors backendErrors
                    then snd (updateCacheIndexes env (GroupName (Spec groupCR)) ldapResult s2)
                    else s2) of
              (Some removeErr, groupCR', s4) \<Rightarrow> (Some removeErr, emit CacheUnlock s4)
            | (None, groupCR', s4) \<Rightarrow>
                (case updateStatusAndHandleErrors env groupCR' backendErrors s4 of
                   (r, groupCR'', s5) \<Rightarrow> (r, emit CacheUnlock s5)))))"

definition Reconcile :: "env \<Rightarrow> string \<times> string \<Rightarrow> state \<Rightarrow> error option \<times> state" where
  "Reconcile env req s =
     (case reconcilePrelude env req s of
        (Inl r, s1) \<Rightarrow> (r, s1)
      | (Inr groupCR, s1) \<Rightarrow>
          (if \<not> isGroupConfigurable env groupCR then markNonConfigurable env groupCR s1
           else (case fetchUniqueGroupMembers (objects s1) (GroupName (Spec groupCR)) (Namespace groupCR) [] of
                   (Inl err, evs) \<Rightarrow> (Some err, s1\<lparr>trace := trace s1 @ evs\<rparr>)
                 | (Inr allMembers, evs) \<Rightarrow>
                     reconcileLocked env
                       (groupCR\<lparr>Status := (Status groupCR)\<lparr>ReconciledUsers := deduplicateMembers allMembers\<rparr>\<rparr>)
                       (deduplicateMembers allMembers) (s1\<lparr>trace := trace s1 @ evs\<rparr>))))"

section \<open>The offboarding job\<close>

text \<open>
  job_usernaut_offboarding.go. The job's fields are the store, the LDAP client, the cache
  mutex and \<open>backendClients\<close>, the Go map from backend key to client; the model has the
  entries of that map as a list and ranges over it in the order of the list.
  \<open>strings.Split\<close> and \<open>strings.ToLower\<close> are written out (letters A to Z).
\<close>

fun splitOn :: "char \<Rightarrow> string \<Rightarrow> string list" where
  "splitOn sep [] = [[]]"
| "splitOn sep (c # cs) =
     (if c = sep then [] # splitOn sep cs
      else (case splitOn sep cs of
              [] \<Rightarrow> [[c]]
            | part # parts \<Rightarrow> (c # part) # parts))"

definition toLowerChar :: "char \<Rightarrow> char" where
  "toLowerChar c =
     (case map_of (zip ''ABCDEFGHIJKLMNOPQRSTUVWXYZ'' ''abcdefghijklmnopqrstuvwxyz'') c of
        None \<Rightarrow> c
      | Some l \<Rightarrow> l)"

definition ToLower :: "string \<Rightarrow> string" where
  "ToLower str = map toLowerChar str"

definition LDAPResultNoSuchObject :: nat where
  "LDAPResultNoSuchObject = 32"

text \<open>\<open>isUserActiveInLDAP\<close> (414-437).\<close>

definition isUserActiveInLDAP :: "env \<Rightarrow> string \<Rightarrow> state \<Rightarrow> (bool \<times> error option) \<times> state" where
  "isUserActiveInLDAP env userEmail s =
     (let s' = emit (LDAPGetUserByEmail userEmail) s
      in case GetUserLDAPDataByEmail env (trace s') of
           Inl err \<Rightarrow>
             (if err = ErrNoUserFound then ((False, None), s')
              else (case err of
                      LDAPError resultCode \<Rightarrow>
                        (if resultCode = LDAPResultNoSuchObject then ((False, None), s')
                         else ((False, Some err), s'))
                    | other \<Rightarrow> ((False, Some err), s')))
         | Inr userData \<Rightarrow>
             (if length userData = 0 then ((False, None), s') else ((True, None), s')))"

text \<open>\<open>offboardUserFromAllBackends\<close> (457-531).\<close>

definition skippedBackendTypes :: "string list" where
  "skippedBackendTypes = [''gitlab'', ''rover'']"

fun offboardFromClients ::
    "env \<Rightarrow> (string \<times> string) list \<Rightarrow> (string \<times> Client) list \<Rightarrow> string list \<Rightarrow> state
       \<Rightarrow> string list \<times> state" where
  "offboardFromClients env userData [] errors s = (errors, s)"
| "offboardFromClients env userData ((backendKey, client) # clients) errors s =
     (if length (splitOn CHR ''_'' backendKey) < 2 then offboardFromClients env userData clients errors s
      else if ToLower (last (splitOn CHR ''_'' backendKey)) \<in> set skippedBackendTypes
        then offboardFromClients env userData clients errors s
      else (case map_of userData backendKey of
              None \<Rightarrow> offboardFromClients env userData clients errors s
            | Some userIDStr \<Rightarrow>
                (case backendCall env (DeleteUser (clKey client) userIDStr) s of
                   (Some err, s') \<Rightarrow>
                     offboardFromClients env userData clients
                       (errors @ [''backend '' @ backendKey @ '': '' @ errorString err]) s'
                 | (None, s') \<Rightarrow> offboardFromClients env userData clients errors s')))"

definition offboardUserFromAllBackends ::
    "env \<Rightarrow> (string \<times> Client) list \<Rightarrow> string \<Rightarrow> (string \<times> string) list \<Rightarrow> state
       \<Rightarrow> error option \<times> state" where
  "offboardUserFromAllBackends env backendClients userKey userData s =
     (case offboardFromClients env userData backendClients [] s of
        (errors, s') \<Rightarrow>
          (if length errors > 0
           then (Some (Error (''failed to remove user from some backends: '' @ fmtV errors)), s')
           else (None, s')))"

text \<open>\<open>getUserListFromCache\<close> (340-360) and \<open>getUserDataFromCache\<close> (375-399). The first
  entry of the Go map that \<open>GetByPattern\<close> returns is the first entry of the list.\<close>

definition getUserListFromCache :: "env \<Rightarrow> state \<Rightarrow> (error + string list) \<times> state" where
  "getUserListFromCache env s =
     (case User_GetByPattern env ''*'' (emit CacheRLock s) of
        (Inl err, s') \<Rightarrow>
          (Inl (Error (''failed to get user list from cache: '' @ errorString err)), emit CacheRUnlock s')
      | (Inr userMap, s') \<Rightarrow>
          (Inr (filter (\<lambda>user. take 7 user \<noteq> ''groups:'') (map fst userMap)), emit CacheRUnlock s'))"

definition getUserDataFromCache ::
    "env \<Rightarrow> string \<Rightarrow> state \<Rightarrow> (error + (string \<times> string) list \<times> string) \<times> state" where
  "getUserDataFromCache env userKey s =
     (case User_GetByPattern env (''*'' @ userKey @ ''*'') (emit CacheRLock s) of
        (Inl err, s') \<Rightarrow> (Inl err, emit CacheRUnlock s')
      | (Inr [], s') \<Rightarrow> (Inl (Error (''No user found with username: '' @ userKey)), emit CacheRUnlock s')
      | (Inr ((email, backendMap) # rest), s') \<Rightarrow> (Inr (backendMap, email), emit CacheRUnlock s'))"

text \<open>\<open>offboardUser\<close> (284-309), \<open>processUser\<close> (249-267), the job's \<open>processUsers\<close>
  (217-232) and \<open>Run\<close> (161-194).\<close>

definition offboardUser :: "env \<Rightarrow> (string \<times> Client) list \<Rightarrow> string \<Rightarrow> state \<Rightarrow> error option \<times> state" where
  "offboardUser env backendClients userKey s =
     (case getUserDataFromCache env userKey s of
        (Inl err, s1) \<Rightarrow>
          (Some (Error (''failed to get user data from cache: '' @ errorString err)), s1)
      | (Inr (userData, userEmail), s1) \<Rightarrow>
          (case offboardUserFromAllBackends env backendClients userKey userData s1 of
             (Some err, s2) \<Rightarrow>
               (Some (Error (''failed to offboard user '' @ userKey @ '' from backends: '' @ errorString err)), s2)
           | (None, s2) \<Rightarrow>
               (case User_Delete env userEmail (emit CacheLock s2) of
                  (Some err, s3) \<Rightarrow>
                    (Some (Error (''failed to remove user '' @ userKey @ '' from cache: '' @ errorString err)),
                     emit CacheUnlock s3)
                | (None, s3) \<Rightarrow> (None, emit CacheUnlock s3))))"

definition processUser ::
    "env \<Rightarrow> (string \<times> Client) list \<Rightarrow> string \<Rightarrow> state \<Rightarrow> (bool \<times> error option) \<times> state" where
  "processUser env backendClients userKey s =
     (case isUserActiveInLDAP env userKey s of
        ((isActive, Some err), s1) \<Rightarrow>
          ((False, Some (Error (''failed to check LDAP for user '' @ userKey @ '': '' @ errorString err))), s1)
      | ((isActive, None), s1) \<Rightarrow>
          (if \<not> isActive then
             (case offboardUser env backendClients userKey s1 of
                (Some err, s2) \<Rightarrow>
                  ((False, Some (Error (''failed to offboard user '' @ userKey @ '': '' @ errorString err))), s2)
              | (None, s2) \<Rightarrow> ((True, None), s2))
           else ((False, None), s1)))"

record processingResult =
  offboardedCount :: nat
  offboardedUsers :: "string list"
  errors :: "string list"

fun processUsers_job ::
    "env \<Rightarrow> (string \<times> Client) list \<Rightarrow> string list \<Rightarrow> processingResult \<Rightarrow> state
       \<Rightarrow> processingResult \<times> state" where
  "processUsers_job env backendClients [] result s = (result, s)"
| "processUsers_job env backendClients (userKey # userKeys) result s =
     (case processUser env backendClients userKey s of
        ((offboarded, Some err), s') \<Rightarrow>
          processUsers_job env backendClients userKeys
            (result\<lparr>errors := errors result @ [errorString err]\<rparr>) s'
      | ((offboarded, None), s') \<Rightarrow>
          (if offboarded then
             processUsers_job env backendClients userKeys
               (result\<lparr>offboardedCount := offboardedCount result + 1,
                        offboardedUsers := offboardedUsers result @ [userKey]\<rparr>) s'
           else processUsers_job env backendClients userKeys result s'))"

definition Run :: "env \<Rightarrow> (string \<times> Client) list \<Rightarrow> state \<Rightarrow> error option \<times> state" where
  "Run env backendClients s =
     (case getUserListFromCache env s of
        (Inl err, s1) \<Rightarrow> (Some err, s1)
      | (Inr userKeys, s1) \<Rightarrow>
          (case processUsers_job env backendClients userKeys
                  \<lparr>offboardedCount = 0, offboardedUsers = [], errors = []\<rparr> s1 of
             (result, s2) \<Rightarrow>
               (if length (errors result) > 0
                then (Some (Error (''user offboarding completed with '' @ fmtD (length (errors result)) @
                                     '' errors: '' @ fmtV (errors result))), s2)
                else (None, s2))))"

section \<open>An example environment\<close>

text \<open>
  The environment of the examples below: only groups of backend type \<open>fivetran\<close> have a
  transformer rule (the team of group \<open>g\<close> is \<open>dataverse-g\<close>); the cluster and the cache
  accept every write; LDAP knows every user \<open>u\<close> with the address \<open>u@x\<close> by username, and
  no user by email; every adapter call succeeds, a new team gets the id \<open>T-\<close> and a new user
  the id \<open>U-\<close> followed by the address, and teams have no members.
\<close>

definition exampleEnv :: env where
  "exampleEnv =
     \<lparr>transformedGroupName =
        (\<lambda>backendType groupName.
           if backendType = ''fivetran'' then Inr (''dataverse-'' @ groupName)
           else Inl (Error ''no matching pattern'')),
      BackendMap =
        [(''fivetran'',
          [(''ftA'', \<lparr>Enabled = True, DependsOn = \<lparr>depName = [], depType = []\<rparr>\<rparr>),
           (''ftB'', \<lparr>Enabled = True, DependsOn = \<lparr>depName = [], depType = []\<rparr>\<rparr>)])],
      AccountReviewerRole = ''Account Reviewer'',
      GroupVersion = ''operator.dataverse.redhat.com/v1alpha1'',
      GroupReadyCondition = ''Ready'',
      ForceReconcileLabel = ''force-reconcile'',
      conditionText = (\<lambda>st. ([], [])),
      MapToStruct =
        (\<lambda>attrs. Inr \<lparr>luEmail = lookupOr [] attrs ''mail'', luUID = lookupOr [] attrs ''uid'',
                       luDisplayName = lookupOr [] attrs ''displayName'', luSN = lookupOr [] attrs ''sn''\<rparr>),
      clusterWrite = (\<lambda>h. None),
      cacheFault = (\<lambda>h. None),
      GetUserLDAPData =
        (\<lambda>h. case last h of
                LDAPGetUser u \<Rightarrow> Inr [(''mail'', u @ ''@x''), (''uid'', u)]
              | other \<Rightarrow> Inl (Error ''unexpected call'')),
      GetUserLDAPDataByEmail = (\<lambda>h. Inl ErrNoUserFound),
      clientsNew =
        (\<lambda>h. case last h of
                ClientsNew n t \<Rightarrow> Inr \<lparr>clKey = backendKeyOf n t, clIsGitlab = (t = ''gitlab'')\<rparr>
              | other \<Rightarrow> Inl (Error ''unexpected call'')),
      createTeam =
        (\<lambda>h. case last h of
                CreateTeam c team \<Rightarrow> Inr (team\<lparr>tID := ''T-'' @ tName team\<rparr>)
              | other \<Rightarrow> Inl (Error ''unexpected call'')),
      createUser =
        (\<lambda>h. case last h of
                CreateUser c u \<Rightarrow> Inr (u\<lparr>uID := ''U-'' @ uEmail u\<rparr>)
              | other \<Rightarrow> Inl (Error ''unexpected call'')),
      fetchTeamMembersByTeamID = (\<lambda>h. Inr []),
      backendAck = (\<lambda>h. None)\<rparr>"

definition emptyState :: state where
  "emptyState =
     \<lparr>trace = [], objects = [], userStore = [], teamStore = [], groupStore = [],
      userGroupsStore = [], allLdapUserData = []\<rparr>"

section \<open>Member expansion: termination and result\<close>

declare fetchUniqueGroupMembers.simps [simp del]

lemma onPath_iff:
  "onPath objs ns V g m \<longleftrightarrow>
     g \<notin> V \<and> (\<exists>cr. map_of objs (ns, g) = Some cr \<and>
        (m = g \<or> (\<exists>sub \<in> set (Groups (Members (Spec cr))). onPath objs ns (insert g V) sub m)))"
proof
  assume "onPath objs ns V g m"
  then show "g \<notin> V \<and> (\<exists>cr. map_of objs (ns, g) = Some cr \<and>
        (m = g \<or> (\<exists>sub \<in> set (Groups (Members (Spec cr))). onPath objs ns (insert g V) sub m)))"
    by cases auto
next
  assume "g \<notin> V \<and> (\<exists>cr. map_of objs (ns, g) = Some cr \<and>
        (m = g \<or> (\<exists>sub \<in> set (Groups (Members (Spec cr))). onPath objs ns (insert g V) sub m)))"
  then show "onPath objs ns V g m"
    by (auto intro: onPath.intros)
qed

lemma fetch_members_set:
  "fetchUniqueGroupMembers objs g ns vis = (Inr ms, evs) \<Longrightarrow>
     set ms = (\<Union>m \<in> {m. onPath objs ns (set vis) g m}. usersOf objs ns m)"
  "fetchSubGroups objs gs ns vis = (Inr ms', evs') \<Longrightarrow>
     set ms' = (\<Union>m \<in> {m. \<exists>sub \<in> set gs. onPath objs ns (set vis) sub m}. usersOf objs ns m)"
proof (induction objs g ns vis and objs gs ns vis arbitrary: ms evs and ms' evs'
       rule: fetchUniqueGroupMembers_fetchSubGroups.induct)
  case (1 objs groupName namespace visitedOnPath)
  show ?case
  proof (cases "groupName \<in> set visitedOnPath")
    case True
    then have "ms = []" using "1.prems" by (simp add: fetchUniqueGroupMembers.simps)
    moreover have "{m. onPath objs namespace (set visitedOnPath) groupName m} = {}"
      using True by (auto simp: onPath_iff [of objs namespace "set visitedOnPath" groupName])
    ultimately show ?thesis by simp
  next
    case False
    then obtain cr where cr: "map_of objs (namespace, groupName) = Some cr"
      using "1.prems"
      by (cases "map_of objs (namespace, groupName)") (auto simp: fetchUniqueGroupMembers.simps)
    obtain r evs0 where sub: "fetchSubGroups objs (Groups (Members (Spec cr))) namespace
        (groupName # visitedOnPath) = (r, evs0)" by fastforce
    then obtain subs where r: "r = Inr subs" and ms: "ms = Users (Members (Spec cr)) @ subs"
      using "1.prems" False cr by (cases r) (auto simp: fetchUniqueGroupMembers.simps)
    have ih: "set subs = (\<Union>m \<in> {m. \<exists>s \<in> set (Groups (Members (Spec cr))).
         onPath objs namespace (set (groupName # visitedOnPath)) s m}. usersOf objs namespace m)"
      using "1.IH" [OF False cr, of subs evs0] sub r by simp
    have "{m. onPath objs namespace (set visitedOnPath) groupName m} =
          insert groupName {m. \<exists>s \<in> set (Groups (Members (Spec cr))).
             onPath objs namespace (set (groupName # visitedOnPath)) s m}"
      using False cr by (auto simp: onPath_iff [of objs namespace "set visitedOnPath" groupName])
    moreover have "usersOf objs namespace groupName = set (Users (Members (Spec cr)))"
      using cr by (simp add: usersOf_def)
    ultimately show ?thesis using ms ih by simp
  qed
next
  case (2 objs namespace visitedOnPath)
  then show ?case by simp
next
  case (3 objs subGroup rest namespace visitedOnPath)
  obtain r1 e1 where c1: "fetchUniqueGroupMembers objs subGroup namespace visitedOnPath = (r1, e1)"
    by fastforce
  then obtain m1 where r1: "r1 = Inr m1" using "3.prems" by (cases r1) auto
  obtain r2 e2 where c2: "fetchSubGroups objs rest namespace visitedOnPath = (r2, e2)"
    by fastforce
  then obtain m2 where r2: "r2 = Inr m2" and ms: "ms' = m1 @ m2"
    using "3.prems" c1 r1 by (cases r2) auto
  have ih1: "set m1 = (\<Union>m \<in> {m. onPath objs namespace (set visitedOnPath) subGroup m}.
      usersOf objs namespace m)"
    using "3.IH"(1) [of m1 e1] c1 r1 by simp
  have ih2: "set m2 = (\<Union>m \<in> {m. \<exists>sub \<in> set rest. onPath objs namespace (set visitedOnPath) sub m}.
      usersOf objs namespace m)"
    using "3.IH"(2) [OF c1 [symmetric] r1, of m2 e2] c2 r2 by simp
  have "{m. \<exists>sub \<in> set (subGroup # rest). onPath objs namespace (set visitedOnPath) sub m} =
        {m. onPath objs namespace (set visitedOnPath) subGroup m} \<union>
        {m. \<exists>sub \<in> set rest. onPath objs namespace (set visitedOnPath) sub m}" by auto
  then show ?case unfolding ms using ih1 ih2 by simp
qed

lemma closedGraph_sub:
  assumes "closedGraph objs" and "map_of objs (ns, g) = Some cr"
    and "sub \<in> set (Groups (Members (Spec cr)))"
  shows "map_of objs (ns, sub) \<noteq> None"
proof -
  have "((ns, g), cr) \<in> set objs" using assms(2) by (rule map_of_SomeD)
  then have "list_all (\<lambda>sub. map_of objs (ns, sub) \<noteq> None) (Groups (Members (Spec cr)))"
    using assms(1) unfolding closedGraph_def list_all_iff by fastforce
  then show ?thesis using assms(3) unfolding list_all_iff by blast
qed

lemma fetch_succeeds:
  "closedGraph objs \<Longrightarrow> g \<in> set vis \<or> map_of objs (ns, g) \<noteq> None \<Longrightarrow>
     \<exists>ms evs. fetchUniqueGroupMembers objs g ns vis = (Inr ms, evs)"
  "closedGraph objs \<Longrightarrow> \<forall>sub \<in> set gs. map_of objs (ns, sub) \<noteq> None \<Longrightarrow>
     \<exists>ms evs. fetchSubGroups objs gs ns vis = (Inr ms, evs)"
proof (induction objs g ns vis and objs gs ns vis
       rule: fetchUniqueGroupMembers_fetchSubGroups.induct)
  case (1 objs groupName namespace visitedOnPath)
  show ?case
  proof (cases "groupName \<in> set visitedOnPath")
    case True
    then show ?thesis by (simp add: fetchUniqueGroupMembers.simps)
  next
    case False
    then obtain cr where cr: "map_of objs (namespace, groupName) = Some cr"
      using "1.prems" by auto
    have "\<forall>sub \<in> set (Groups (Members (Spec cr))). map_of objs (namespace, sub) \<noteq> None"
      using closedGraph_sub [OF "1.prems"(1) cr] by blast
    then obtain subs evs0 where "fetchSubGroups objs (Groups (Members (Spec cr))) namespace
        (groupName # visitedOnPath) = (Inr subs, evs0)"
      using "1.IH" [OF False cr "1.prems"(1)] by blast
    then show ?thesis using False cr by (simp add: fetchUniqueGroupMembers.simps)
  qed
next
  case (2 objs namespace visitedOnPath)
  show ?case by simp
next
  case (3 objs subGroup rest namespace visitedOnPath)
  obtain m1 e1 where c1: "fetchUniqueGroupMembers objs subGroup namespace visitedOnPath = (Inr m1, e1)"
    using "3.IH"(1) [OF "3.prems"(1)] "3.prems"(2) by auto
  obtain m2 e2 where "fetchSubGroups objs rest namespace visitedOnPath = (Inr m2, e2)"
    using "3.IH"(2) [OF c1 [symmetric] refl "3.prems"(1)] "3.prems"(2) by auto
  then show ?case using c1 by simp
qed

text \<open>
  Claim C3. \<open>fetchUniqueGroupMembers\<close> is a total function (its termination is proved above
  for every cluster content, cyclic or not; the measure is the number of groups not yet on
  the path). On a cluster in which every named sub-group exists, the call on an existing
  group with any path set \<open>vis\<close> returns a member list, and its members are exactly the
  \<open>Spec.Members.Users\<close> of the groups reached from it by paths that avoid \<open>vis\<close> and repeat no
  group. A group that is already on the path yields the empty list and no further read.
  Since the path set of a sub-group is the path set of its parent, and not what an earlier
  sibling visited, a group reached again on another branch is expanded again.
\<close>

theorem fetchUniqueGroupMembers_cycle_tolerant:
  assumes "closedGraph objs" and "map_of objs (ns, g) \<noteq> None"
  shows "(\<exists>ms evs. fetchUniqueGroupMembers objs g ns vis = (Inr ms, evs) \<and>
            set ms = (\<Union>m \<in> {m. onPath objs ns (set vis) g m}. usersOf objs ns m)) \<and>
         (g \<in> set vis \<longrightarrow> fetchUniqueGroupMembers objs g ns vis = (Inr [], []))"
proof -
  obtain ms evs where r: "fetchUniqueGroupMembers objs g ns vis = (Inr ms, evs)"
    using fetch_succeeds(1) [OF assms(1), of g vis ns] assms(2) by blast
  have "set ms = (\<Union>m \<in> {m. onPath objs ns (set vis) g m}. usersOf objs ns m)"
    using fetch_members_set(1) [OF r] .
  then show ?thesis using r by (simp add: fetchUniqueGroupMembers.simps)
qed

text \<open>
  An example cluster: \<open>g1\<close> names \<open>g2\<close> and \<open>g3\<close>, both name \<open>g4\<close> (a diamond), and \<open>g4\<close> names
  \<open>g1\<close> again (a cycle). The expansion of \<open>g1\<close> reads \<open>g4\<close> on both branches, so its user
  appears twice in the list, and stops at \<open>g1\<close> on each.
\<close>

definition exampleGroup :: "string \<Rightarrow> string list \<Rightarrow> string list \<Rightarrow> Backend list \<Rightarrow> Group" where
  "exampleGroup n us gs bs =
     \<lparr>Name = n, Namespace = ''usernaut'', UID = n, Generation = 1, DeletionTimestamp = None,
      Finalizers = [''operator.dataverse.redhat.com/finalizer''], OwnerReferences = [],
      Labels = None,
      Spec = \<lparr>GroupName = n, Members = \<lparr>Users = us, Groups = gs\<rparr>, Backends = bs, GroupParams = []\<rparr>,
      Status = \<lparr>ReconciledUsers = [], Conditions = [], BackendsStatus = []\<rparr>\<rparr>"

definition diamondCluster :: objects where
  "diamondCluster =
     [((''usernaut'', ''g1''), exampleGroup ''g1'' [''alice''] [''g2'', ''g3''] []),
      ((''usernaut'', ''g2''), exampleGroup ''g2'' [''bob''] [''g4''] []),
      ((''usernaut'', ''g3''), exampleGroup ''g3'' [] [''g4''] []),
      ((''usernaut'', ''g4''), exampleGroup ''g4'' [''carol''] [''g1''] [])]"

theorem fetchUniqueGroupMembers_cycle_tolerant_witness:
  "closedGraph diamondCluster \<and> map_of diamondCluster (''usernaut'', ''g1'') \<noteq> None \<and>
   fst (fetchUniqueGroupMembers diamondCluster ''g1'' ''usernaut'' []) =
     Inr [''alice'', ''bob'', ''carol'', ''carol''] \<and>
   (\<exists>ms evs. fetchUniqueGroupMembers diamondCluster ''g1'' ''usernaut'' [] = (Inr ms, evs) \<and>
      set ms = (\<Union>m \<in> {m. onPath diamondCluster ''usernaut'' (set []) ''g1'' m}.
                  usersOf diamondCluster ''usernaut'' m))"
proof -
  have c: "closedGraph diamondCluster"
    by (simp add: closedGraph_def diamondCluster_def exampleGroup_def)
  have e: "map_of diamondCluster (''usernaut'', ''g1'') \<noteq> None"
    by (simp add: diamondCluster_def)
  have v: "fst (fetchUniqueGroupMembers diamondCluster ''g1'' ''usernaut'' []) =
     Inr [''alice'', ''bob'', ''carol'', ''carol'']"
    by (simp add: fetchUniqueGroupMembers.simps diamondCluster_def exampleGroup_def)
  show ?thesis
    using fetchUniqueGroupMembers_cycle_tolerant [OF c e, of "[]"] c e v by blast
qed

section \<open>Offboarding: who is inactive\<close>

lemma isUserActiveInLDAP_inactive_iff:
  "fst (isUserActiveInLDAP env userEmail s) = (False, None) \<longleftrightarrow>
     GetUserLDAPDataByEmail env (trace s @ [LDAPGetUserByEmail userEmail]) \<in>
       {Inl ErrNoUserFound, Inl (LDAPError LDAPResultNoSuchObject), Inr []}"
  by (auto simp: isUserActiveInLDAP_def emit_def Let_def split: sum.splits error.splits)

lemma isUserActiveInLDAP_state:
  "snd (isUserActiveInLDAP env userEmail s) = emit (LDAPGetUserByEmail userEmail) s"
  by (auto simp: isUserActiveInLDAP_def Let_def split: sum.splits error.splits)

lemma isUserActiveInLDAP_other_error:
  assumes "GetUserLDAPDataByEmail env (trace s @ [LDAPGetUserByEmail userEmail]) = Inl err"
    and "err \<noteq> ErrNoUserFound" and "err \<noteq> LDAPError LDAPResultNoSuchObject"
  shows "isUserActiveInLDAP env userEmail s = ((False, Some err), emit (LDAPGetUserByEmail userEmail) s)"
  using assms
  by (auto simp: isUserActiveInLDAP_def emit_def Let_def split: sum.splits error.splits)

text \<open>
  Claim C8. \<open>isUserActiveInLDAP\<close> answers "inactive, no error" exactly when the lookup by
  email returns the sentinel \<open>ErrNoUserFound\<close>, or an LDAP error whose result code is No
  Such Object, or an empty attribute map. The loop of the job, at a user \<open>userKey\<close> followed
  by the users \<open>rest\<close>: for an inactive user \<open>processUser\<close> goes on to \<open>offboardUser\<close>, and the
  loop counts the user as offboarded or appends the error of \<open>offboardUser\<close> to the errors of
  the run; for every other LDAP error the job does nothing for the user but the lookup, the
  user is not counted as offboarded and the error is appended to the errors of the run; for
  a user with attributes nothing is recorded. In each case the loop goes on with \<open>rest\<close>, and
  after the last user it returns what it has recorded.
\<close>

theorem inactive_in_LDAP_exactly:
  "(fst (isUserActiveInLDAP env userKey s) = (False, None) \<longleftrightarrow>
      GetUserLDAPDataByEmail env (trace s @ [LDAPGetUserByEmail userKey]) \<in>
        {Inl ErrNoUserFound, Inl (LDAPError LDAPResultNoSuchObject), Inr []}) \<and>
   (fst (isUserActiveInLDAP env userKey s) = (False, None) \<longrightarrow>
      processUser env backendClients userKey s =
        (case offboardUser env backendClients userKey (emit (LDAPGetUserByEmail userKey) s) of
           (Some err, s') \<Rightarrow>
             ((False, Some (Error (''failed to offboard user '' @ userKey @ '': '' @ errorString err))), s')
         | (None, s') \<Rightarrow> ((True, None), s')) \<and>
      processUsers_job env backendClients (userKey # rest) result s =
        (case offboardUser env backendClients userKey (emit (LDAPGetUserByEmail userKey) s) of
           (Some err, s') \<Rightarrow>
             processUsers_job env backendClients rest
               (result\<lparr>errors := errors result @
                    [''failed to offboard user '' @ userKey @ '': '' @ errorString err]\<rparr>) s'
         | (None, s') \<Rightarrow>
             processUsers_job env backendClients rest
               (result\<lparr>offboardedCount := offboardedCount result + 1,
                        offboardedUsers := offboardedUsers result @ [userKey]\<rparr>) s')) \<and>
   (\<forall>err. GetUserLDAPDataByEmail env (trace s @ [LDAPGetUserByEmail userKey]) = Inl err \<and>
       err \<noteq> ErrNoUserFound \<and> err \<noteq> LDAPError LDAPResultNoSuchObject \<longrightarrow>
       processUser env backendClients userKey s =
         ((False, Some (Error (''failed to check LDAP for user '' @ userKey @ '': '' @ errorString err))),
          emit (LDAPGetUserByEmail userKey) s) \<and>
       processUsers_job env backendClients (userKey # rest) result s =
         processUsers_job env backendClients rest
           (result\<lparr>errors := errors result @
                [''failed to check LDAP for user '' @ userKey @ '': '' @ errorString err]\<rparr>)
           (emit (LDAPGetUserByEmail userKey) s)) \<and>
   (\<forall>userData. GetUserLDAPDataByEmail env (trace s @ [LDAPGetUserByEmail userKey]) = Inr userData \<and>
       userData \<noteq> [] \<longrightarrow>
       processUser env backendClients userKey s = ((False, None), emit (LDAPGetUserByEmail userKey) s) \<and>
       processUsers_job env backendClients (userKey # rest) result s =
         processUsers_job env backendClients rest result (emit (LDAPGetUserByEmail userKey) s)) \<and>
   processUsers_job env backendClients [] result s = (result, s)"
proof -
  let ?s1 = "emit (LDAPGetUserByEmail userKey) s"
  have c1: "fst (isUserActiveInLDAP env userKey s) = (False, None) \<longleftrightarrow>
      GetUserLDAPDataByEmail env (trace s @ [LDAPGetUserByEmail userKey]) \<in>
        {Inl ErrNoUserFound, Inl (LDAPError LDAPResultNoSuchObject), Inr []}"
    by (rule isUserActiveInLDAP_inactive_iff)
  have c2: "fst (isUserActiveInLDAP env userKey s) = (False, None) \<longrightarrow>
      processUser env backendClients userKey s =
        (case offboardUser env backendClients userKey ?s1 of
           (Some err, s') \<Rightarrow>
             ((False, Some (Error (''failed to offboard user '' @ userKey @ '': '' @ errorString err))), s')
         | (None, s') \<Rightarrow> ((True, None), s')) \<and>
      processUsers_job env backendClients (userKey # rest) result s =
        (case offboardUser env backendClients userKey ?s1 of
           (Some err, s') \<Rightarrow>
             processUsers_job env backendClients rest
               (result\<lparr>errors := errors result @
                    [''failed to offboard user '' @ userKey @ '': '' @ errorString err]\<rparr>) s'
         | (None, s') \<Rightarrow>
             processUsers_job env backendClients rest
               (result\<lparr>offboardedCount := offboardedCount result + 1,
                        offboardedUsers := offboardedUsers result @ [userKey]\<rparr>) s')"
  proof
    assume a: "fst (isUserActiveInLDAP env userKey s) = (False, None)"
    have i: "isUserActiveInLDAP env userKey s = ((False, None), ?s1)"
      using a isUserActiveInLDAP_state [of env userKey s] by (simp add: prod_eq_iff)
    obtain q s2 where o: "offboardUser env backendClients userKey ?s1 = (q, s2)"
      by (cases "offboardUser env backendClients userKey ?s1") auto
    have p: "processUser env backendClients userKey s =
        (case q of
           Some err \<Rightarrow>
             ((False, Some (Error (''failed to offboard user '' @ userKey @ '': '' @ errorString err))), s2)
         | None \<Rightarrow> ((True, None), s2))"
      using i o by (simp add: processUser_def split: option.splits)
    show "processUser env backendClients userKey s =
        (case offboardUser env backendClients userKey ?s1 of
           (Some err, s') \<Rightarrow>
             ((False, Some (Error (''failed to offboard user '' @ userKey @ '': '' @ errorString err))), s')
         | (None, s') \<Rightarrow> ((True, None), s')) \<and>
      processUsers_job env backendClients (userKey # rest) result s =
        (case offboardUser env backendClients userKey ?s1 of
           (Some err, s') \<Rightarrow>
             processUsers_job env backendClients rest
               (result\<lparr>errors := errors result @
                    [''failed to offboard user '' @ userKey @ '': '' @ errorString err]\<rparr>) s'
         | (None, s') \<Rightarrow>
             processUsers_job env backendClients rest
               (result\<lparr>offboardedCount := offboardedCount result + 1,
                        offboardedUsers := offboardedUsers result @ [userKey]\<rparr>) s')"
      using p o by (cases q) (simp_all add: errorString_def)
  qed
  have c3: "\<forall>err. GetUserLDAPDataByEmail env (trace s @ [LDAPGetUserByEmail userKey]) = Inl err \<and>
       err \<noteq> ErrNoUserFound \<and> err \<noteq> LDAPError LDAPResultNoSuchObject \<longrightarrow>
       processUser env backendClients userKey s =
         ((False, Some (Error (''failed to check LDAP for user '' @ userKey @ '': '' @ errorString err))), ?s1) \<and>
       processUsers_job env backendClients (userKey # rest) result s =
         processUsers_job env backendClients rest
           (result\<lparr>errors := errors result @
                [''failed to check LDAP for user '' @ userKey @ '': '' @ errorString err]\<rparr>) ?s1"
  proof (intro allI impI)
    fix err
    assume "GetUserLDAPDataByEmail env (trace s @ [LDAPGetUserByEmail userKey]) = Inl err \<and>
       err \<noteq> ErrNoUserFound \<and> err \<noteq> LDAPError LDAPResultNoSuchObject"
    then have i: "isUserActiveInLDAP env userKey s = ((False, Some err), ?s1)"
      using isUserActiveInLDAP_other_error by blast
    have p: "processUser env backendClients userKey s =
         ((False, Some (Error (''failed to check LDAP for user '' @ userKey @ '': '' @ errorString err))), ?s1)"
      using i by (simp add: processUser_def)
    show "processUser env backendClients userKey s =
         ((False, Some (Error (''failed to check LDAP for user '' @ userKey @ '': '' @ errorString err))), ?s1) \<and>
       processUsers_job env backendClients (userKey # rest) result s =
         processUsers_job env backendClients rest
           (result\<lparr>errors := errors result @
                [''failed to check LDAP for user '' @ userKey @ '': '' @ errorString err]\<rparr>) ?s1"
      using p by (simp add: errorString_def)
  qed
  have c4: "\<forall>userData. GetUserLDAPDataByEmail env (trace s @ [LDAPGetUserByEmail userKey]) = Inr userData \<and>
       userData \<noteq> [] \<longrightarrow>
       processUser env backendClients userKey s = ((False, None), ?s1) \<and>
       processUsers_job env backendClients (userKey # rest) result s =
         processUsers_job env backendClients rest result ?s1"
  proof (intro allI impI)
    fix userData
    assume "GetUserLDAPDataByEmail env (trace s @ [LDAPGetUserByEmail userKey]) = Inr userData \<and>
       userData \<noteq> []"
    then have i: "isUserActiveInLDAP env userKey s = ((True, None), ?s1)"
      by (simp add: isUserActiveInLDAP_def emit_def Let_def)
    have p: "processUser env backendClients userKey s = ((False, None), ?s1)"
      using i by (simp add: processUser_def)
    show "processUser env backendClients userKey s = ((False, None), ?s1) \<and>
       processUsers_job env backendClients (userKey # rest) result s =
         processUsers_job env backendClients rest result ?s1"
      using p by simp
  qed
  have c5: "processUsers_job env backendClients [] result s = (result, s)"
    by simp
  show ?thesis
    by (rule conjI [OF c1 conjI [OF c2 conjI [OF c3 conjI [OF c4 c5]]]])
qed

text \<open>
  Two cached users. With the example environment the lookup of \<open>gone@x\<close> returns the
  sentinel, and the user is classified as inactive. With an LDAP server that closes the
  connection, the job records the failure for each of the two users and offboards none.
\<close>

definition ldapDownEnv :: env where
  "ldapDownEnv = exampleEnv\<lparr>GetUserLDAPDataByEmail := (\<lambda>h. Inl (Error ''connection closed''))\<rparr>"

definition emptyResult :: processingResult where
  "emptyResult = \<lparr>offboardedCount = 0, offboardedUsers = [], errors = []\<rparr>"

theorem inactive_in_LDAP_exactly_witness:
  "GetUserLDAPDataByEmail exampleEnv (trace emptyState @ [LDAPGetUserByEmail ''gone@x'']) = Inl ErrNoUserFound \<and>
   fst (isUserActiveInLDAP exampleEnv ''gone@x'' emptyState) = (False, None) \<and>
   GetUserLDAPDataByEmail ldapDownEnv (trace emptyState @ [LDAPGetUserByEmail ''gone@x'']) =
     Inl (Error ''connection closed'') \<and>
   processUsers_job ldapDownEnv [] [''gone@x'', ''bob@x''] emptyResult emptyState =
     (emptyResult\<lparr>errors := [''failed to check LDAP for user gone@x: connection closed'',
                               ''failed to check LDAP for user bob@x: connection closed'']\<rparr>,
      emit (LDAPGetUserByEmail ''bob@x'') (emit (LDAPGetUserByEmail ''gone@x'') emptyState))"
proof -
  let ?s1 = "emit (LDAPGetUserByEmail ''gone@x'') emptyState"
  let ?r1 = "emptyResult\<lparr>errors := errors emptyResult @
      [''failed to check LDAP for user '' @ ''gone@x'' @ '': '' @ errorString (Error ''connection closed'')]\<rparr>"
  have a: "GetUserLDAPDataByEmail exampleEnv (trace emptyState @ [LDAPGetUserByEmail ''gone@x'']) =
      Inl ErrNoUserFound"
    by (simp add: exampleEnv_def)
  have b: "\<And>h. GetUserLDAPDataByEmail ldapDownEnv h = Inl (Error ''connection closed'')"
    by (simp add: ldapDownEnv_def exampleEnv_def)
  have c: "Error ''connection closed'' \<noteq> ErrNoUserFound \<and>
      Error ''connection closed'' \<noteq> LDAPError LDAPResultNoSuchObject" by simp
  note t0 = inactive_in_LDAP_exactly [of exampleEnv "''gone@x''" emptyState "[]" "[]" emptyResult]
  note t1 = inactive_in_LDAP_exactly [of ldapDownEnv "''gone@x''" emptyState "[]" "[''bob@x'']" emptyResult]
  note t2 = inactive_in_LDAP_exactly [of ldapDownEnv "''bob@x''" ?s1 "[]" "[]" ?r1]
  have i: "fst (isUserActiveInLDAP exampleEnv ''gone@x'' emptyState) = (False, None)"
    using t0 a by simp
  have j1: "processUsers_job ldapDownEnv [] [''gone@x'', ''bob@x''] emptyResult emptyState =
      processUsers_job ldapDownEnv [] [''bob@x''] ?r1 ?s1"
    using t1 b c by blast
  have j2: "processUsers_job ldapDownEnv [] [''bob@x''] ?r1 ?s1 =
      processUsers_job ldapDownEnv [] []
        (?r1\<lparr>errors := errors ?r1 @
            [''failed to check LDAP for user '' @ ''bob@x'' @ '': '' @ errorString (Error ''connection closed'')]\<rparr>)
        (emit (LDAPGetUserByEmail ''bob@x'') ?s1)"
    using t2 b c by blast
  show ?thesis
    using a b i j1 j2 by (simp add: emptyResult_def errorString_def)
qed

section \<open>Status and the result of a reconcile\<close>

definition errorEntries :: "backendErrors \<Rightarrow> (string \<times> string \<times> string) list" where
  "errorEntries backendErrors =
     concat (map (\<lambda>(backendType, m). map (\<lambda>(backendName, msg). (backendType, backendName, msg)) m) backendErrors)"

lemma hasErrors_iff: "hasErrors be \<longleftrightarrow> errorEntries be \<noteq> []"
  by (induction be) (auto simp: hasErrors_def errorEntries_def)

lemma find_setCondition:
  "find (\<lambda>c. cType c = cType new) (setCondition cs new) = Some new"
  by (induction cs) auto

lemma readyOf_UpdateStatus:
  "readyOf env (UpdateStatus env isError cr) =
     Some (readyCondition env cr (if isError then ConditionFalse else ConditionTrue))"
  using find_setCondition [of "readyCondition env cr (if isError then ConditionFalse else ConditionTrue)"
      "Conditions (Status cr)"]
  by (simp add: readyOf_def UpdateStatus_def withConditions_def readyCondition_def)

lemma UpdateStatus_fields:
  "Spec (UpdateStatus env b cr) = Spec cr"
  "BackendsStatus (Status (UpdateStatus env b cr)) = BackendsStatus (Status cr)"
  "ReconciledUsers (Status (UpdateStatus env b cr)) = ReconciledUsers (Status cr)"
  "Generation (UpdateStatus env b cr) = Generation cr"
  by (simp_all add: UpdateStatus_def withConditions_def)

lemma statusUpdate_trace: "trace (snd (statusUpdate env cr s)) = trace s @ [UpdateCRStatus cr]"
  by (auto simp: statusUpdate_def emit_def Let_def split: option.splits)

lemma backendStatusOf_error:
  "map_of be (bType b) = Some tm \<Longrightarrow> map_of tm (bName b) = Some msg \<Longrightarrow>
   backendStatusOf be b = \<lparr>bsName = bName b, bsType = bType b, bsStatus = False, bsMessage = msg\<rparr>"
  by (simp add: backendStatusOf_def)

definition finalCR :: "env \<Rightarrow> Group \<Rightarrow> backendErrors \<Rightarrow> Group" where
  "finalCR env groupCR be =
     (let groupCR1 = groupCR\<lparr>Status := (Status groupCR)\<lparr>BackendsStatus :=
                        map (backendStatusOf be) (Backends (Spec groupCR))\<rparr>\<rparr>;
          groupCR2 = UpdateStatus env False groupCR1
      in if hasErrors be then UpdateStatus env True groupCR2 else groupCR2)"

lemma usahe_result:
  assumes "updateStatusAndHandleErrors env groupCR be s = (r, groupCR', s')"
  shows "groupCR' = finalCR env groupCR be \<and> s' = snd (statusUpdate env groupCR' s) \<and>
         (r = None \<longleftrightarrow> \<not> hasErrors be \<and> fst (statusUpdate env groupCR' s) = None)"
proof -
  obtain e s1 where su: "statusUpdate env (finalCR env groupCR be) s = (e, s1)" by fastforce
  have "updateStatusAndHandleErrors env groupCR be s =
     (case e of Some err \<Rightarrow> (Some err, finalCR env groupCR be, s1)
      | None \<Rightarrow> (if hasErrors be then (Some (Error ''failed to reconcile all backends''), finalCR env groupCR be, s1)
                  else (None, finalCR env groupCR be, s1)))"
    using su unfolding updateStatusAndHandleErrors_def finalCR_def Let_def by simp
  then show ?thesis using assms su by (cases e) (auto split: if_splits)
qed

lemma finalCR_ready:
  "map_option cStatus (readyOf env (finalCR env groupCR be)) =
     Some (if hasErrors be then ConditionFalse else ConditionTrue)"
  by (simp add: finalCR_def Let_def readyOf_UpdateStatus readyCondition_def)

lemma finalCR_status:
  "BackendsStatus (Status (finalCR env groupCR be)) = map (backendStatusOf be) (Backends (Spec groupCR))"
  by (simp add: finalCR_def Let_def UpdateStatus_fields)

text \<open>
  Claim C9, as the code has it. \<open>errorEntries\<close> lists the error entries of \<open>backendErrors\<close>.
  \<open>updateStatusAndHandleErrors\<close> leaves the Ready condition True exactly when there is no
  error entry and False exactly when there is one; it sends one status update, with the
  resource it returns; every declared backend that has an error entry has the status false
  and the message of the entry in \<open>backends_status\<close>. It returns nil exactly when there is no
  error entry and the status update succeeds: with an error entry it returns an error, and
  without one it returns the error of a failed status update.
\<close>

theorem updateStatusAndHandleErrors_outcome:
  assumes "updateStatusAndHandleErrors env groupCR be s = (r, groupCR', s')"
  shows "(map_option cStatus (readyOf env groupCR') = Some ConditionTrue \<longleftrightarrow> errorEntries be = []) \<and>
         (map_option cStatus (readyOf env groupCR') = Some ConditionFalse \<longleftrightarrow> errorEntries be \<noteq> []) \<and>
         (r = None \<longleftrightarrow> errorEntries be = [] \<and> fst (statusUpdate env groupCR' s) = None) \<and>
         (\<forall>b \<in> set (Backends (Spec groupCR)). \<forall>tm msg.
             map_of be (bType b) = Some tm \<and> map_of tm (bName b) = Some msg \<longrightarrow>
             \<lparr>bsName = bName b, bsType = bType b, bsStatus = False, bsMessage = msg\<rparr>
               \<in> set (BackendsStatus (Status groupCR'))) \<and>
         trace s' = trace s @ [UpdateCRStatus groupCR']"
proof -
  have cr: "groupCR' = finalCR env groupCR be" and s': "s' = snd (statusUpdate env groupCR' s)"
    and r: "r = None \<longleftrightarrow> \<not> hasErrors be \<and> fst (statusUpdate env groupCR' s) = None"
    using usahe_result [OF assms] by blast+
  have ready: "map_option cStatus (readyOf env groupCR') =
     Some (if hasErrors be then ConditionFalse else ConditionTrue)"
    unfolding cr by (rule finalCR_ready)
  have st: "\<forall>b \<in> set (Backends (Spec groupCR)). \<forall>tm msg.
             map_of be (bType b) = Some tm \<and> map_of tm (bName b) = Some msg \<longrightarrow>
             \<lparr>bsName = bName b, bsType = bType b, bsStatus = False, bsMessage = msg\<rparr>
               \<in> set (BackendsStatus (Status groupCR'))"
    unfolding cr finalCR_status
  proof (intro ballI allI impI)
    fix b tm msg
    assume b: "b \<in> set (Backends (Spec groupCR))"
      and "map_of be (bType b) = Some tm \<and> map_of tm (bName b) = Some msg"
    then have "backendStatusOf be b =
        \<lparr>bsName = bName b, bsType = bType b, bsStatus = False, bsMessage = msg\<rparr>"
      using backendStatusOf_error by blast
    then have "\<lparr>bsName = bName b, bsType = bType b, bsStatus = False, bsMessage = msg\<rparr> \<in>
        backendStatusOf be ` set (Backends (Spec groupCR))"
      using b by (metis imageI)
    then show "\<lparr>bsName = bName b, bsType = bType b, bsStatus = False, bsMessage = msg\<rparr> \<in>
        set (map (backendStatusOf be) (Backends (Spec groupCR)))"
      by simp
  qed
  have p1: "map_option cStatus (readyOf env groupCR') = Some ConditionTrue \<longleftrightarrow> errorEntries be = []"
    using ready by (auto simp: hasErrors_iff split: if_splits)
  have p2: "map_option cStatus (readyOf env groupCR') = Some ConditionFalse \<longleftrightarrow> errorEntries be \<noteq> []"
    using ready by (auto simp: hasErrors_iff split: if_splits)
  have p3: "r = None \<longleftrightarrow> errorEntries be = [] \<and> fst (statusUpdate env groupCR' s) = None"
    using r by (simp add: hasErrors_iff)
  have p5: "trace s' = trace s @ [UpdateCRStatus groupCR']"
    using s' statusUpdate_trace [of env groupCR' s] by simp
  show ?thesis
    by (rule conjI [OF p1 conjI [OF p2 conjI [OF p3 conjI [OF st p5]]]])
qed

text \<open>
  Two declared backends of type fivetran. With no error entry and a cluster that refuses the
  status update, Ready is set to True in memory and the function returns the error of the
  update.
\<close>

definition writeFailsEnv :: env where
  "writeFailsEnv = exampleEnv\<lparr>clusterWrite := (\<lambda>h. Some (Error ''the object has been modified''))\<rparr>"

definition ftGroup :: Group where
  "ftGroup = exampleGroup ''g1'' [''alice''] []
     [\<lparr>bName = ''ftA'', bType = ''fivetran''\<rparr>, \<lparr>bName = ''ftB'', bType = ''fivetran''\<rparr>]"

definition ftState :: state where
  "ftState = emptyState\<lparr>objects := [((''usernaut'', ''g1''), ftGroup)]\<rparr>"

theorem updateStatusAndHandleErrors_nil_counterexample:
  "errorEntries [] = [] \<and>
   fst (updateStatusAndHandleErrors writeFailsEnv ftGroup [] ftState) =
     Some (Error ''the object has been modified'')"
  by (simp add: errorEntries_def updateStatusAndHandleErrors_def statusUpdate_def writeFailsEnv_def
      exampleEnv_def Let_def hasErrors_def emit_def)

theorem updateStatusAndHandleErrors_outcome_witness:
  "errorEntries [(''fivetran'', [(''ftB'', ''500'')])] \<noteq> [] \<and>
   map_option cStatus (readyOf exampleEnv
     (fst (snd (updateStatusAndHandleErrors exampleEnv ftGroup [(''fivetran'', [(''ftB'', ''500'')])] ftState)))) =
     Some ConditionFalse \<and>
   fst (updateStatusAndHandleErrors exampleEnv ftGroup [(''fivetran'', [(''ftB'', ''500'')])] ftState) \<noteq> None \<and>
   \<lparr>bsName = ''ftB'', bsType = ''fivetran'', bsStatus = False, bsMessage = ''500''\<rparr> \<in>
     set (BackendsStatus (Status
       (fst (snd (updateStatusAndHandleErrors exampleEnv ftGroup [(''fivetran'', [(''ftB'', ''500'')])] ftState)))))"
proof -
  define X where "X = updateStatusAndHandleErrors exampleEnv ftGroup [(''fivetran'', [(''ftB'', ''500'')])] ftState"
  have e: "errorEntries [(''fivetran'', [(''ftB'', ''500'')])] \<noteq> []"
    by (simp add: errorEntries_def)
  have b: "\<lparr>bName = ''ftB'', bType = ''fivetran''\<rparr> \<in> set (Backends (Spec ftGroup))"
    by (simp add: ftGroup_def exampleGroup_def)
  have m: "map_of [(''fivetran'', [(''ftB'', ''500'')])] (bType \<lparr>bName = ''ftB'', bType = ''fivetran''\<rparr>) =
        Some [(''ftB'', ''500'')] \<and>
      map_of [(''ftB'', ''500'')] (bName \<lparr>bName = ''ftB'', bType = ''fivetran''\<rparr>) = Some ''500''"
    by simp
  have X: "updateStatusAndHandleErrors exampleEnv ftGroup [(''fivetran'', [(''ftB'', ''500'')])] ftState =
      (fst X, fst (snd X), snd (snd X))"
    by (simp add: X_def)
  note t = updateStatusAndHandleErrors_outcome [OF X]
  have "map_option cStatus (readyOf exampleEnv (fst (snd X))) = Some ConditionFalse"
    using t e by blast
  moreover have "fst X \<noteq> None" using t e by blast
  moreover have "\<lparr>bsName = ''ftB'', bsType = ''fivetran'', bsStatus = False, bsMessage = ''500''\<rparr> \<in>
     set (BackendsStatus (Status (fst (snd X))))"
    using t b m by fastforce
  ultimately show ?thesis using e unfolding X_def by blast
qed

text \<open>
  An error entry of a backend that the group does not declare (the entry of an invalid group
  parameter) sets Ready to False and makes the function return an error; \<open>backends_status\<close>
  has entries for the declared backends only (486-504).
\<close>

lemma updateStatusAndHandleErrors_undeclared_entry:
  "map bsStatus (BackendsStatus (Status (fst (snd
     (updateStatusAndHandleErrors exampleEnv ftGroup
        [(''gitlab'', [(''gl'', ''group param refers to non-existent backend: gitlab/gl'')])] ftState))))) =
     [True, True] \<and>
   map_option cStatus (readyOf exampleEnv (fst (snd
     (updateStatusAndHandleErrors exampleEnv ftGroup
        [(''gitlab'', [(''gl'', ''group param refers to non-existent backend: gitlab/gl'')])] ftState)))) =
     Some ConditionFalse \<and>
   fst (updateStatusAndHandleErrors exampleEnv ftGroup
        [(''gitlab'', [(''gl'', ''group param refers to non-existent backend: gitlab/gl'')])] ftState) =
     Some (Error ''failed to reconcile all backends'')"
  by code_simp

section \<open>The membership delta of a backend\<close>

lemma cacheCall_eq: "cacheCall env ev s = (cacheFault env (trace s @ [ev]), emit ev s)"
  by (simp add: cacheCall_def)

lemma User_GetBackends_cases:
  assumes "User_GetBackends env email s = (r, s')"
  shows "s' = emit (UserGetBackends email) s \<and>
         ((\<exists>err. r = Inl err) \<or> r = Inr (lookupOr [] (userStore s) email))"
  using assms by (auto simp: User_GetBackends_def cacheCall_def emit_def split: option.splits)

definition cachedUserID :: "state \<Rightarrow> string \<Rightarrow> string \<Rightarrow> string" where
  "cachedUserID s backendKey email = lookupOr [] (lookupOr [] (userStore s) email) backendKey"

definition resolvedUserIDs :: "state \<Rightarrow> string \<Rightarrow> string list \<Rightarrow> string list" where
  "resolvedUserIDs s backendKey groupUsers =
     List.map_filter (\<lambda>user. map_option (\<lambda>d. cachedUserID s backendKey (luEmail d))
                                 (map_of (allLdapUserData s) user)) groupUsers"

definition unresolvedMembers :: "state \<Rightarrow> string list \<Rightarrow> string list" where
  "unresolvedMembers s groupUsers = filter (\<lambda>user. map_of (allLdapUserData s) user = None) groupUsers"

lemma emit_fields [simp]:
  "userStore (emit ev s) = userStore s" "allLdapUserData (emit ev s) = allLdapUserData s"
  "teamStore (emit ev s) = teamStore s" "groupStore (emit ev s) = groupStore s"
  "userGroupsStore (emit ev s) = userGroupsStore s" "objects (emit ev s) = objects s"
  "trace (emit ev s) = trace s @ [ev]"
  by (simp_all add: emit_def)

lemma cachedUserID_emit [simp]: "cachedUserID (emit ev s) bk e = cachedUserID s bk e"
  by (simp add: cachedUserID_def)

lemma resolvedUserIDs_emit [simp]: "resolvedUserIDs (emit ev s) bk us = resolvedUserIDs s bk us"
  by (simp add: resolvedUserIDs_def)

lemma unresolvedMembers_emit [simp]: "unresolvedMembers (emit ev s) us = unresolvedMembers s us"
  by (simp add: unresolvedMembers_def)

lemma collectUserIDs_result:
  "collectUserIDs env groupUsers existing bk ids rem s = (Inr (ids', rem'), s') \<Longrightarrow>
     ids' = ids @ resolvedUserIDs s bk groupUsers \<and>
     rem' = rem @ filter (\<lambda>user. map_of existing user \<noteq> None) (unresolvedMembers s groupUsers)"
proof (induction groupUsers arbitrary: ids rem s)
  case Nil
  then show ?case by (simp add: resolvedUserIDs_def unresolvedMembers_def map_filter_simps)
next
  case (Cons user groupUsers)
  show ?case
  proof (cases "map_of (allLdapUserData s) user")
    case None
    then have "collectUserIDs env groupUsers existing bk ids
        (if map_of existing user \<noteq> None then rem @ [user] else rem) s = (Inr (ids', rem'), s')"
      using Cons.prems by simp
    from Cons.IH [OF this] show ?thesis using None
      by (simp add: resolvedUserIDs_def unresolvedMembers_def map_filter_simps)
  next
    case (Some d)
    obtain r s1 where g: "User_GetBackends env (luEmail d) s = (r, s1)" by fastforce
    note c = User_GetBackends_cases [OF g]
    have r: "r = Inr (lookupOr [] (userStore s) (luEmail d))"
      using c Cons.prems Some g by auto
    have ne: "cachedUserID s bk (luEmail d) \<noteq> []"
      using Cons.prems Some g r by (auto simp: cachedUserID_def split: if_splits)
    have "collectUserIDs env groupUsers existing bk (ids @ [cachedUserID s bk (luEmail d)]) rem s1 =
        (Inr (ids', rem'), s')"
      using Cons.prems Some g r ne by (simp add: cachedUserID_def)
    from Cons.IH [OF this] show ?thesis using Some c
      by (simp add: resolvedUserIDs_def unresolvedMembers_def map_filter_simps)
  qed
qed

text \<open>
  Claim C6. When \<open>processUsers\<close> returns its two lists: \<open>usersToAdd\<close> holds exactly the
  cached backend ids of the members that resolved in LDAP and that are not keys of
  \<open>existingTeamMembers\<close>; \<open>usersToRemove\<close> holds exactly the keys of \<open>existingTeamMembers\<close> that
  are no such id, and in addition every member that did not resolve and is itself a key of
  \<open>existingTeamMembers\<close> (the code looks an unresolved member up under the name the group
  gives it). So every existing team member that is not the id of a resolved member is
  removed, whatever it is the id of.
\<close>

theorem processUsers_delta:
  assumes "processUsers env groupUsers existingTeamMembers backendName backendType s =
             (Inr (usersToAdd, usersToRemove), s')"
  shows "set usersToAdd =
           set (resolvedUserIDs s (backendKeyOf backendName backendType) groupUsers)
             - fst ` set existingTeamMembers \<and>
         set usersToRemove =
           (fst ` set existingTeamMembers
              - set (resolvedUserIDs s (backendKeyOf backendName backendType) groupUsers))
           \<union> (set (unresolvedMembers s groupUsers) \<inter> fst ` set existingTeamMembers)"
proof -
  obtain ids rem where c: "collectUserIDs env groupUsers existingTeamMembers
      (backendKeyOf backendName backendType) [] [] s = (Inr (ids, rem), s')"
    and a: "usersToAdd = filter (\<lambda>userID. map_of existingTeamMembers userID = None) ids"
    and r: "usersToRemove = rem @ filter (\<lambda>userID. userID \<notin> set ids) (remdups (map fst existingTeamMembers))"
    using assms by (auto simp: processUsers_def split: prod.splits sum.splits)
  have ids: "ids = resolvedUserIDs s (backendKeyOf backendName backendType) groupUsers"
    and rem: "rem = filter (\<lambda>user. map_of existingTeamMembers user \<noteq> None) (unresolvedMembers s groupUsers)"
    using collectUserIDs_result [OF c] by simp_all
  have k: "\<And>x. map_of existingTeamMembers x = None \<longleftrightarrow> x \<notin> fst ` set existingTeamMembers"
    by (simp add: map_of_eq_None_iff)
  show ?thesis unfolding a r ids [symmetric] rem by (auto simp: k)
qed


text \<open>
  An example: \<open>alice\<close> resolves and has the cached id \<open>U1\<close>; \<open>bob\<close> does not resolve; the team
  has the members \<open>U2\<close> and \<open>bob\<close>.
\<close>

definition deltaState :: state where
  "deltaState = emptyState
     \<lparr>userStore := [(''alice@x'', [(''ftA_fivetran'', ''U1'')])],
      allLdapUserData := [(''alice'', \<lparr>luEmail = ''alice@x'', luUID = ''alice'',
                                       luDisplayName = ''Alice'', luSN = ''A''\<rparr>)]\<rparr>"

definition someUser :: User where
  "someUser = \<lparr>uID = [], uEmail = [], uUserName = [], uRole = [], uFirstName = [], uLastName = []\<rparr>"

theorem processUsers_delta_witness:
  "fst (processUsers exampleEnv [''alice'', ''bob''] [(''U2'', someUser), (''bob'', someUser)]
          ''ftA'' ''fivetran'' deltaState) = Inr ([''U1''], [''bob'', ''U2'', ''bob'']) \<and>
   set [''U1''] =
     set (resolvedUserIDs deltaState (backendKeyOf ''ftA'' ''fivetran'') [''alice'', ''bob''])
       - fst ` set [(''U2'', someUser), (''bob'', someUser)] \<and>
   set [''bob'', ''U2'', ''bob''] =
     (fst ` set [(''U2'', someUser), (''bob'', someUser)]
        - set (resolvedUserIDs deltaState (backendKeyOf ''ftA'' ''fivetran'') [''alice'', ''bob'']))
     \<union> (set (unresolvedMembers deltaState [''alice'', ''bob''])
          \<inter> fst ` set [(''U2'', someUser), (''bob'', someUser)])"
proof -
  define X where "X = processUsers exampleEnv [''alice'', ''bob''] [(''U2'', someUser), (''bob'', someUser)]
          ''ftA'' ''fivetran'' deltaState"
  have v: "fst X = Inr ([''U1''], [''bob'', ''U2'', ''bob''])"
    by (simp add: X_def processUsers_def deltaState_def emptyState_def User_GetBackends_def
        cacheCall_def emit_def exampleEnv_def lookupOr_def backendKeyOf_def)
  then have "X = (Inr ([''U1''], [''bob'', ''U2'', ''bob'']), snd X)"
    by (metis prod.collapse)
  then show ?thesis
    using processUsers_delta [of exampleEnv "[''alice'', ''bob'']" "[(''U2'', someUser), (''bob'', someUser)]"
        "''ftA''" "''fivetran''" deltaState "[''U1'']" "[''bob'', ''U2'', ''bob'']" "snd X"] v
    unfolding X_def by blast
qed

section \<open>Resolving the team of a backend\<close>

definition groupBackendID :: "state \<Rightarrow> string \<Rightarrow> string \<Rightarrow> string" where
  "groupBackendID s groupName backendKey =
     (case map_of (gdBackends (lookupOr emptyGroupData (groupStore s) groupName)) backendKey of
        None \<Rightarrow> []
      | Some info \<Rightarrow> biID info)"

definition teamBackendID :: "state \<Rightarrow> string \<Rightarrow> string \<Rightarrow> string" where
  "teamBackendID s teamName backendKey = lookupOr [] (lookupOr [] (teamStore s) teamName) backendKey"


lemma groupBackendID_emit [simp]: "groupBackendID (emit ev s) g k = groupBackendID s g k"
  by (simp add: groupBackendID_def)

lemma teamBackendID_emit [simp]: "teamBackendID (emit ev s) t k = teamBackendID s t k"
  by (simp add: teamBackendID_def)


















section \<open>The configurability gate\<close>

text \<open>
  \<open>steps P s s'\<close>: the trace of \<open>s'\<close> is the trace of \<open>s\<close> followed by events that all satisfy
  \<open>P\<close>. \<open>sameCache s s'\<close>: the four views of the cache are the same in both states.
  \<open>nonConfigurableCR\<close> is the resource that the gate sends in its status update.
\<close>

fun isClusterCall :: "event \<Rightarrow> bool" where
  "isClusterCall (GetGroupCR k) = True"
| "isClusterCall (GetParentCR k) = True"
| "isClusterCall (UpdateCR cr) = True"
| "isClusterCall (UpdateCRStatus cr) = True"
| "isClusterCall e = False"

definition steps :: "(event \<Rightarrow> bool) \<Rightarrow> state \<Rightarrow> state \<Rightarrow> bool" where
  "steps P s s' \<longleftrightarrow> (\<exists>evs. trace s' = trace s @ evs \<and> list_all P evs)"

definition sameCache :: "state \<Rightarrow> state \<Rightarrow> bool" where
  "sameCache s s' \<longleftrightarrow>
     userStore s' = userStore s \<and> teamStore s' = teamStore s \<and> groupStore s' = groupStore s \<and>
     userGroupsStore s' = userGroupsStore s"


lemma steps_refl [simp]: "steps P s s"
  by (simp add: steps_def)

lemma steps_trans: "steps P s s1 \<Longrightarrow> steps P s1 s2 \<Longrightarrow> steps P s s2"
  by (auto simp: steps_def)

lemma steps_emit: "P ev \<Longrightarrow> steps P s (emit ev s)"
  by (simp add: steps_def)

lemma steps_append: "list_all P evs \<Longrightarrow> steps P s (s\<lparr>trace := trace s @ evs\<rparr>)"
  by (simp add: steps_def)

lemma sameCache_refl [simp]: "sameCache s s"
  by (simp add: sameCache_def)

lemma sameCache_trans: "sameCache s s1 \<Longrightarrow> sameCache s1 s2 \<Longrightarrow> sameCache s s2"
  by (simp add: sameCache_def)

lemma clientUpdate_frame:
  "clientUpdate env cr s = (r, s') \<Longrightarrow> steps isClusterCall s s' \<and> sameCache s s'"
  by (auto simp: clientUpdate_def Let_def steps_def sameCache_def emit_def split: option.splits)

lemma statusUpdate_frame:
  "statusUpdate env cr s = (r, s') \<Longrightarrow> steps isClusterCall s s' \<and> sameCache s s'"
  by (auto simp: statusUpdate_def Let_def steps_def sameCache_def emit_def split: option.splits)

lemma fetchParents_events:
  "fetchParents env objs ns ps desired = (r, evs) \<Longrightarrow> list_all isClusterCall evs"
  by (induction ps arbitrary: desired r evs) (auto split: option.splits prod.splits)

lemma setOwnerReference_frame:
  assumes "setOwnerReference env cr s = (r, cr', s')"
  shows "steps isClusterCall s s' \<and> sameCache s s'"
proof -
  obtain p evs where f: "fetchParents env (objects s) (Namespace cr) (Groups (Members (Spec cr))) [] = (p, evs)"
    by fastforce
  let ?s1 = "s\<lparr>trace := trace s @ evs\<rparr>"
  have 1: "steps isClusterCall s ?s1 \<and> sameCache s ?s1"
    using fetchParents_events [OF f] by (simp add: steps_def sameCache_def)
  have "s' = ?s1 \<or> (\<exists>c q. clientUpdate env c ?s1 = (q, s'))"
    using assms f by (auto simp: setOwnerReference_def Let_def split: sum.splits prod.splits if_splits)
  then show ?thesis
  proof
    assume "s' = ?s1" then show ?thesis using 1 by simp
  next
    assume "\<exists>c q. clientUpdate env c ?s1 = (q, s')"
    then obtain c q where "clientUpdate env c ?s1 = (q, s')" by blast
    from clientUpdate_frame [OF this] 1 show ?thesis
      using steps_trans sameCache_trans by blast
  qed
qed

lemma ensureFinalizer_frame:
  assumes "ensureFinalizer env cr s = (r, cr', s')"
  shows "steps isClusterCall s s' \<and> sameCache s s'"
proof (cases "groupFinalizer \<in> set (Finalizers cr)")
  case True
  then show ?thesis using assms by (simp add: ensureFinalizer_def)
next
  case False
  then obtain q where "clientUpdate env (cr\<lparr>Finalizers := Finalizers cr @ [groupFinalizer]\<rparr>) s = (q, s')"
    using assms by (auto simp: ensureFinalizer_def split: prod.splits)
  from clientUpdate_frame [OF this] show ?thesis .
qed

lemma frame_trans:
  "steps P s s1 \<and> sameCache s s1 \<Longrightarrow> steps P s1 s2 \<and> sameCache s1 s2 \<Longrightarrow> steps P s s2 \<and> sameCache s s2"
  using steps_trans sameCache_trans by fast

lemma reconcilePrelude_frame:
  assumes "reconcilePrelude env req s = (Inr groupCR, s1)"
  shows "steps isClusterCall s s1 \<and> sameCache s s1"
proof -
  let ?s0 = "emit (GetGroupCR req) s"
  have 0: "steps isClusterCall s ?s0 \<and> sameCache s ?s0"
    by (simp add: steps_def sameCache_def)
  obtain cr0 where cr0: "map_of (objects s) req = Some cr0" and nd: "DeletionTimestamp cr0 = None"
    using assms by (auto simp: reconcilePrelude_def split: option.splits if_splits prod.splits)
  obtain r1 cr1 sa where fin: "ensureFinalizer env cr0 ?s0 = (r1, cr1, sa)"
    by (cases "ensureFinalizer env cr0 ?s0") auto
  obtain r2 cr2 sb where so: "setOwnerReference env cr1 sa = (r2, cr2, sb)"
    by (cases "setOwnerReference env cr1 sa") auto
  obtain r3 sc where su: "statusUpdate env (SetWaiting env cr2) sb = (r3, sc)"
    by (cases "statusUpdate env (SetWaiting env cr2) sb") auto
  have "reconcilePrelude env req s =
     (case r1 of Some err \<Rightarrow> (Inl (Some err), sa)
      | None \<Rightarrow> (case r2 of Some err \<Rightarrow> (Inl (Some err), sb)
         | None \<Rightarrow> (case r3 of Some err \<Rightarrow> (Inl (Some err), sc)
            | None \<Rightarrow> (Inr (SetWaiting env cr2), sc))))"
    using cr0 nd fin so su by (simp add: reconcilePrelude_def split: option.splits)
  then have "s1 = sc"
    using assms by (simp split: option.splits)
  then show ?thesis
    using frame_trans [OF frame_trans [OF frame_trans [OF 0 ensureFinalizer_frame [OF fin]]
        setOwnerReference_frame [OF so]] statusUpdate_frame [OF su]]
    by simp
qed








lemma steps_weaken: "steps P s s' \<Longrightarrow> (\<And>e. P e \<Longrightarrow> Q e) \<Longrightarrow> steps Q s s'"
  by (auto simp: steps_def list_all_iff)














section \<open>The reverse index and the membership list\<close>

text \<open>
  The three writes of \<open>updateCacheIndexes\<close> are the calls \<open>UserGroups.AddGroup\<close>,
  \<open>UserGroups.RemoveGroup\<close> and \<open>Group.SetMembers\<close>. \<open>untouched s s'\<close>: from \<open>s\<close> to \<open>s'\<close> none of
  the three is made, the User to Groups index is the same and every group has the same
  members.
\<close>

fun isIndexWrite :: "event \<Rightarrow> bool" where
  "isIndexWrite (UserGroupsAddGroup e g) = True"
| "isIndexWrite (UserGroupsRemoveGroup e g) = True"
| "isIndexWrite (GroupSetMembers g ms) = True"
| "isIndexWrite e = False"

definition sameIndexes :: "state \<Rightarrow> state \<Rightarrow> bool" where
  "sameIndexes s s' \<longleftrightarrow>
     userGroupsStore s' = userGroupsStore s \<and> (\<forall>g. groupMembers s' g = groupMembers s g)"

definition untouched :: "state \<Rightarrow> state \<Rightarrow> bool" where
  "untouched s s' \<longleftrightarrow> steps (\<lambda>e. \<not> isIndexWrite e) s s' \<and> sameIndexes s s'"

lemma untouched_refl [simp]: "untouched s s"
  by (simp add: untouched_def sameIndexes_def)

lemma untouched_trans: "untouched s s1 \<Longrightarrow> untouched s1 s2 \<Longrightarrow> untouched s s2"
  unfolding untouched_def sameIndexes_def using steps_trans by fastforce

lemma untouched_emit: "\<not> isIndexWrite ev \<Longrightarrow> untouched s (emit ev s)"
  by (simp add: untouched_def sameIndexes_def steps_def groupMembers_def)

lemma untouched_events:
  "list_all (\<lambda>e. \<not> isIndexWrite e) evs \<Longrightarrow> untouched s (s\<lparr>trace := trace s @ evs\<rparr>)"
  by (simp add: untouched_def sameIndexes_def steps_def groupMembers_def)

lemma untouched_ldapData:
  "untouched s (s\<lparr>allLdapUserData := d\<rparr>)"
  by (simp add: untouched_def sameIndexes_def steps_def groupMembers_def)

lemma groupMembers_SetBackend:
  "groupMembers (s\<lparr>groupStore := AList.update g
       ((lookupOr emptyGroupData (groupStore s) g)\<lparr>gdBackends := b\<rparr>) (groupStore s)\<rparr>) g' = groupMembers s g'"
  by (simp add: groupMembers_def lookupOr_def update_conv' emptyGroupData_def split: option.splits)

lemma User_GetBackends_untouched: "User_GetBackends env e s = (r, s') \<Longrightarrow> untouched s s'"
  by (auto simp: User_GetBackends_def cacheCall_def untouched_emit split: option.splits)

lemma User_SetBackend_untouched: "User_SetBackend env e k i s = (r, s') \<Longrightarrow> untouched s s'"
  by (auto simp: User_SetBackend_def cacheCall_def untouched_def sameIndexes_def steps_def
      groupMembers_def split: option.splits)

lemma Team_GetBackends_untouched: "Team_GetBackends env t s = (r, s') \<Longrightarrow> untouched s s'"
  by (auto simp: Team_GetBackends_def cacheCall_def untouched_emit split: option.splits)

lemma Group_GetBackendID_untouched: "Group_GetBackendID env g n t s = (r, s') \<Longrightarrow> untouched s s'"
  by (auto simp: Group_GetBackendID_def cacheCall_def untouched_emit split: option.splits)

lemma Group_BackendExists_untouched: "Group_BackendExists env g n t s = (r, s') \<Longrightarrow> untouched s s'"
  by (auto simp: Group_BackendExists_def cacheCall_def untouched_emit split: option.splits)

lemma Group_SetBackend_untouched: "Group_SetBackend env g n t i s = (r, s') \<Longrightarrow> untouched s s'"
proof -
  assume a: "Group_SetBackend env g n t i s = (r, s')"
  let ?s1 = "emit (GroupSetBackend g n t i) s"
  have 1: "untouched s ?s1" by (simp add: untouched_emit)
  have "s' = ?s1 \<or> (\<exists>b. s' = ?s1\<lparr>groupStore := AList.update g
       ((lookupOr emptyGroupData (groupStore ?s1) g)\<lparr>gdBackends := b\<rparr>) (groupStore ?s1)\<rparr>)"
    using a by (auto simp: Group_SetBackend_def cacheCall_def Let_def split: option.splits)
  moreover have "\<And>b. untouched ?s1 (?s1\<lparr>groupStore := AList.update g
       ((lookupOr emptyGroupData (groupStore ?s1) g)\<lparr>gdBackends := b\<rparr>) (groupStore ?s1)\<rparr>)"
    using groupMembers_SetBackend [where s = ?s1 and g = g]
    by (simp add: untouched_def sameIndexes_def steps_def)
  ultimately show "untouched s s'" using 1 untouched_trans by auto
qed

lemma backendCall_untouched: "\<not> isIndexWrite ev \<Longrightarrow> backendCall env ev s = (r, s') \<Longrightarrow> untouched s s'"
  by (auto simp: backendCall_def untouched_emit)

lemma fetchOrCreateTeam_untouched:
  assumes "fetchOrCreateTeam env g c bp s = (r, s')"
  shows "untouched s s'"
proof (cases "transformedGroupName env (bpType bp) g")
  case (Inl e)
  then show ?thesis using assms by (simp add: fetchOrCreateTeam_def Let_def)
next
  case (Inr transformed)
  obtain r1 s1 where g1: "Group_GetBackendID env g (bpName bp) (bpType bp) s = (r1, s1)"
    by (cases "Group_GetBackendID env g (bpName bp) (bpType bp) s") auto
  note u1 = Group_GetBackendID_untouched [OF g1]
  obtain r2 s2 where g2: "Team_GetBackends env transformed s1 = (r2, s2)"
    by (cases "Team_GetBackends env transformed s1") auto
  note u2 = untouched_trans [OF u1 Team_GetBackends_untouched [OF g2]]
  let ?team = "\<lparr>tID = [], tName = transformed, tDescription = ''team for '' @ g,
                 tRole = AccountReviewerRole env, tTeamParams = bpGroupParams bp\<rparr>"
  let ?s3 = "emit (CreateTeam (clKey c) ?team) s2"
  have u3: "untouched s ?s3" using untouched_trans [OF u2 untouched_emit] by simp
  have "s' = s1 \<or> s' = s2 \<or> s' = ?s3 \<or>
        (\<exists>i q. Group_SetBackend env g (bpName bp) (bpType bp) i s2 = (q, s')) \<or>
        (\<exists>i q. Group_SetBackend env g (bpName bp) (bpType bp) i ?s3 = (q, s'))"
    using assms Inr g1 g2
    by (auto simp: fetchOrCreateTeam_def Let_def split: sum.splits option.splits if_splits prod.splits)
  then show ?thesis
    using u1 u2 u3 untouched_trans [OF u2 Group_SetBackend_untouched]
      untouched_trans [OF u3 Group_SetBackend_untouched] by auto
qed

lemma createUsers_untouched:
  "untouched s0 s \<Longrightarrow> createUsersInBackendAndCache env users n t c s = (r, s') \<Longrightarrow> untouched s0 s'"
proof (induction users arbitrary: s)
  case Nil
  then show ?case by simp
next
  case (Cons user users)
  show ?case
  proof (cases "map_of (allLdapUserData s) user")
    case None
    then show ?thesis using Cons by simp
  next
    case (Some d)
    obtain r1 s1 where g1: "User_GetBackends env (luEmail d) s = (r1, s1)"
      by (cases "User_GetBackends env (luEmail d) s") auto
    note u1 = untouched_trans [OF Cons.prems(1) User_GetBackends_untouched [OF g1]]
    let ?s2 = "emit (CreateUser (clKey c) \<lparr>uID = [], uEmail = luEmail d, uUserName = user,
                   uRole = AccountReviewerRole env,
                   uFirstName = luDisplayName d, uLastName = luSN d\<rparr>) s1"
    have u2: "untouched s0 ?s2" using untouched_trans [OF u1 untouched_emit] by simp
    have "s' = s1 \<or> createUsersInBackendAndCache env users n t c s1 = (r, s') \<or> s' = ?s2 \<or>
          (\<exists>i q s3. User_SetBackend env (luEmail d) (backendKeyOf n t) i ?s2 = (q, s3) \<and>
             (s' = s3 \<or> createUsersInBackendAndCache env users n t c s3 = (r, s')))"
      using Cons.prems(2) Some g1
      by (auto simp: Let_def split: sum.splits option.splits if_splits prod.splits)
    then consider "s' = s1" | "createUsersInBackendAndCache env users n t c s1 = (r, s')" | "s' = ?s2"
      | i q s3 where "User_SetBackend env (luEmail d) (backendKeyOf n t) i ?s2 = (q, s3)"
          "s' = s3 \<or> createUsersInBackendAndCache env users n t c s3 = (r, s')"
      by blast
    then show ?thesis
    proof cases
      case 1
      then show ?thesis using u1 by simp
    next
      case 2
      then show ?thesis using Cons.IH [OF u1] by simp
    next
      case 3
      then show ?thesis using u2 by simp
    next
      case 4
      note u3 = untouched_trans [OF u2 User_SetBackend_untouched [OF 4(1)]]
      show ?thesis using 4(2) u3 Cons.IH [OF u3] by auto
    qed
  qed
qed

lemma collectUserIDs_untouched:
  "untouched s0 s \<Longrightarrow> collectUserIDs env us ex bk ids rem s = (r, s') \<Longrightarrow> untouched s0 s'"
proof (induction us arbitrary: s ids rem)
  case Nil
  then show ?case by simp
next
  case (Cons user us)
  show ?case
  proof (cases "map_of (allLdapUserData s) user")
    case None
    then show ?thesis using Cons by simp
  next
    case (Some d)
    obtain r1 s1 where g1: "User_GetBackends env (luEmail d) s = (r1, s1)"
      by (cases "User_GetBackends env (luEmail d) s") auto
    note u1 = untouched_trans [OF Cons.prems(1) User_GetBackends_untouched [OF g1]]
    have "s' = s1 \<or> (\<exists>ids'. collectUserIDs env us ex bk ids' rem s1 = (r, s'))"
      using Cons.prems(2) Some g1
      by (auto simp: Let_def split: sum.splits option.splits if_splits prod.splits)
    then show ?thesis using u1 Cons.IH by auto
  qed
qed

lemma processUsers_untouched:
  assumes "processUsers env us ex n t s = (r, s')"
  shows "untouched s s'"
proof -
  obtain q where "collectUserIDs env us ex (backendKeyOf n t) [] [] s = (q, s')"
    using assms by (auto simp: processUsers_def split: prod.splits sum.splits)
  from collectUserIDs_untouched [OF untouched_refl this] show ?thesis .
qed

lemma ldapDependantChecks_untouched:
  assumes "ldapDependantChecks env d g s = (r, s')"
  shows "untouched s s'"
proof -
  obtain r1 s1 where g1: "Group_BackendExists env g (depName d) (depType d) s = (r1, s1)"
    by (cases "Group_BackendExists env g (depName d) (depType d) s") auto
  note u1 = Group_BackendExists_untouched [OF g1]
  have "s' = s \<or> s' = s1 \<or> (\<exists>tn q. Team_GetBackends env tn s1 = (q, s'))"
    using assms g1
    by (auto simp: ldapDependantChecks_def split: sum.splits option.splits if_splits prod.splits bool.splits)
  then show ?thesis
    using u1 untouched_trans [OF u1 Team_GetBackends_untouched] by auto
qed

lemma setupLdapSync_untouched:
  assumes "setupLdapSync env t n c g bs s = (r, s')"
  shows "untouched s s'"
proof -
  let ?d = "DependsOn (lookupOr \<lparr>Enabled = False, DependsOn = \<lparr>depName = [], depType = []\<rparr>\<rparr>
                            (lookupOr [] (BackendMap env) ''gitlab'') n)"
  obtain q s1 where l: "ldapDependantChecks env ?d g s = (q, s1)"
    by (cases "ldapDependantChecks env ?d g s") auto
  note u1 = ldapDependantChecks_untouched [OF l]
  have "s' = s \<or> s' = s1 \<or> s' = emit (SetLdapSync (clKey c) g) s1"
    using assms l
    by (auto simp: setupLdapSync_def Let_def split: sum.splits option.splits if_splits prod.splits)
  then show ?thesis
    using u1 untouched_trans [OF u1 untouched_emit] by auto
qed

lemma syncTeamMembers_untouched:
  assumes "syncTeamMembers env c tid sync add rem s = (r, s')"
  shows "untouched s s'"
proof (cases sync)
  case True
  then show ?thesis using assms by (simp add: syncTeamMembers_def)
next
  case False
  obtain q1 s1 where a: "(if length add > 0 then backendCall env (AddUserToTeam (clKey c) tid add) s
                          else (None, s)) = (q1, s1)"
    by (cases "if length add > 0 then backendCall env (AddUserToTeam (clKey c) tid add) s else (None, s)")
       auto
  have u1: "untouched s s1"
  proof (cases "length add > 0")
    case True
    then have "backendCall env (AddUserToTeam (clKey c) tid add) s = (q1, s1)" using a by simp
    then show ?thesis by (rule backendCall_untouched [rotated]) simp
  next
    case False
    then show ?thesis using a by simp
  qed
  have "s' = s1 \<or> (\<exists>q. backendCall env (RemoveUserFromTeam (clKey c) tid rem) s1 = (q, s'))"
    using assms a False
    by (cases q1; cases "length rem > 0") (simp_all add: syncTeamMembers_def)
  then show ?thesis
  proof
    assume "s' = s1" then show ?thesis using u1 by simp
  next
    assume "\<exists>q. backendCall env (RemoveUserFromTeam (clKey c) tid rem) s1 = (q, s')"
    then obtain q where "backendCall env (RemoveUserFromTeam (clKey c) tid rem) s1 = (q, s')" ..
    then have "untouched s1 s'" by (rule backendCall_untouched [rotated]) simp
    with u1 show ?thesis by (rule untouched_trans)
  qed
qed

lemma processSingleBackend_untouched:
  assumes "processSingleBackend env cr b us gp s = (r, s')"
  shows "untouched s s'"
proof -
  let ?s0 = "emit (ClientsNew (bName b) (bType b)) s"
  have u0: "untouched s ?s0" by (simp add: untouched_emit)
  show ?thesis
  proof (cases "clientsNew env (trace ?s0)")
    case (Inl err)
    then have "s' = ?s0" using assms by (simp add: processSingleBackend_def Let_def)
    then show ?thesis using u0 by simp
  next
    case (Inr c)
    obtain r1 s1 where a1: "setupLdapSync env (bType b) (bName b) c (GroupName (Spec cr)) (Backends (Spec cr)) ?s0 = (r1, s1)"
      by (cases "setupLdapSync env (bType b) (bName b) c (GroupName (Spec cr)) (Backends (Spec cr)) ?s0") auto
    note u1 = untouched_trans [OF u0 setupLdapSync_untouched [OF a1]]
    obtain r2 s2 where a2: "fetchOrCreateTeam env (GroupName (Spec cr)) c
          \<lparr>bpName = bName b, bpType = bType b, bpGroupParams = gp\<rparr> s1 = (r2, s2)"
      by (cases "fetchOrCreateTeam env (GroupName (Spec cr)) c
          \<lparr>bpName = bName b, bpType = bType b, bpGroupParams = gp\<rparr> s1") auto
    note u2 = untouched_trans [OF u1 fetchOrCreateTeam_untouched [OF a2]]
    obtain r3 s3 where a3: "createUsersInBackendAndCache env us (bName b) (bType b) c s2 = (r3, s3)"
      by (cases "createUsersInBackendAndCache env us (bName b) (bType b) c s2") auto
    note u3 = createUsers_untouched [OF u2 a3]
    have "s' = s1 \<or> s' = s2 \<or> s' = s3 \<or>
          (\<exists>tid. s' = emit (FetchTeamMembersByTeamID (clKey c) tid) s3 \<or>
            (\<exists>ms q s5. processUsers env us ms (bName b) (bType b) (emit (FetchTeamMembersByTeamID (clKey c) tid) s3) = (q, s5) \<and>
               (s' = s5 \<or> (\<exists>sync add rem. syncTeamMembers env c tid sync add rem s5 = (r, s')))))"
      using assms Inr a1 a2 a3
      by (auto simp: processSingleBackend_def Let_def split: sum.splits option.splits prod.splits)
    then consider "s' = s1" | "s' = s2" | "s' = s3"
      | tid where "s' = emit (FetchTeamMembersByTeamID (clKey c) tid) s3"
      | tid ms q s5 where "processUsers env us ms (bName b) (bType b) (emit (FetchTeamMembersByTeamID (clKey c) tid) s3) = (q, s5)"
          "s' = s5 \<or> (\<exists>sync add rem. syncTeamMembers env c tid sync add rem s5 = (r, s'))"
      by blast
    then show ?thesis
    proof cases
      case 1 then show ?thesis using u1 by simp
    next
      case 2 then show ?thesis using u2 by simp
    next
      case 3 then show ?thesis using u3 by simp
    next
      case 4 then show ?thesis using untouched_trans [OF u3 untouched_emit] by simp
    next
      case 5
      have u4: "untouched s (emit (FetchTeamMembersByTeamID (clKey c) tid) s3)"
        using untouched_trans [OF u3 untouched_emit] by simp
      note u5 = untouched_trans [OF u4 processUsers_untouched [OF 5(1)]]
      show ?thesis using 5(2) u5 untouched_trans [OF u5 syncTeamMembers_untouched] by auto
    qed
  qed
qed

lemma processBackends_untouched:
  "untouched s0 s \<Longrightarrow> processBackends env cr us gp bs be s = (r, s') \<Longrightarrow> untouched s0 s'"
proof (induction bs arbitrary: s be)
  case Nil
  then show ?case by simp
next
  case (Cons b bs)
  obtain q s1 where a: "processSingleBackend env cr b us
       (lookupOr \<lparr>tpProperty = [], tpValue = []\<rparr> gp (backendKeyOf (bName b) (bType b))) s = (q, s1)"
    by (cases "processSingleBackend env cr b us
       (lookupOr \<lparr>tpProperty = [], tpValue = []\<rparr> gp (backendKeyOf (bName b) (bType b))) s") auto
  note u1 = untouched_trans [OF Cons.prems(1) processSingleBackend_untouched [OF a]]
  have "\<exists>be'. processBackends env cr us gp bs be' s1 = (r, s')"
    using Cons.prems(2) a by (auto split: option.splits)
  then show ?case using Cons.IH [OF u1] by auto
qed

lemma processAllBackends_untouched:
  assumes "processAllBackends env cr us s = (r, s')"
  shows "untouched s s'"
proof -
  have "\<exists>gp be. processBackends env cr us gp (Backends (Spec cr)) be s = (r, s')"
    using assms by (auto simp: processAllBackends_def split: prod.splits)
  then show ?thesis using processBackends_untouched [OF untouched_refl] by auto
qed

lemma fetchLDAPDataLoop_untouched:
  "untouched s0 s \<Longrightarrow> fetchLDAPDataLoop env us uids cur s = (r, s') \<Longrightarrow> untouched s0 s'"
proof (induction us arbitrary: s uids cur)
  case Nil
  then show ?case by simp
next
  case (Cons u us)
  let ?s1 = "emit (LDAPGetUser u) s"
  have u1: "untouched s0 ?s1" using untouched_trans [OF Cons.prems(1) untouched_emit] by simp
  have "\<exists>uids' cur'. fetchLDAPDataLoop env us uids' cur' ?s1 = (r, s') \<or>
         (\<exists>d. fetchLDAPDataLoop env us uids' cur' (?s1\<lparr>allLdapUserData := d\<rparr>) = (r, s'))"
    using Cons.prems(2) by (auto simp: Let_def split: sum.splits)
  then show ?case
    using Cons.IH [OF u1] Cons.IH [OF untouched_trans [OF u1 untouched_ldapData]] by auto
qed

lemma fetchLDAPData_untouched:
  assumes "fetchLDAPData env us s = (r, s')"
  shows "untouched s s'"
proof -
  have "\<exists>q. fetchLDAPDataLoop env us [] [] (s\<lparr>allLdapUserData := []\<rparr>) = (q, s')"
    using assms by (auto simp: fetchLDAPData_def split: prod.splits)
  then show ?thesis using fetchLDAPDataLoop_untouched [OF untouched_ldapData] by auto
qed

lemma cluster_untouched:
  assumes "steps isClusterCall s s' \<and> sameCache s s'"
  shows "untouched s s'"
proof -
  have "steps (\<lambda>e. \<not> isIndexWrite e) s s'"
  proof (rule steps_weaken [OF conjunct1 [OF assms]])
    fix e show "isClusterCall e \<Longrightarrow> \<not> isIndexWrite e" by (cases e) auto
  qed
  then show ?thesis
    using assms by (simp add: untouched_def sameIndexes_def sameCache_def groupMembers_def)
qed

lemma RemoveForceReconcileLabel_untouched:
  assumes "RemoveForceReconcileLabel env cr s = (r, cr', s')"
  shows "untouched s s'"
proof -
  have "s' = s \<or> (\<exists>c q. clientUpdate env c s = (q, s'))"
    using assms
    by (auto simp: RemoveForceReconcileLabel_def Let_def split: option.splits if_splits prod.splits)
  then show ?thesis using cluster_untouched [OF clientUpdate_frame] by auto
qed

lemma updateStatusAndHandleErrors_untouched:
  assumes "updateStatusAndHandleErrors env cr be s = (r, cr', s')"
  shows "untouched s s'"
proof -
  have "\<exists>c q. statusUpdate env c s = (q, s')"
    using assms
    by (auto simp: updateStatusAndHandleErrors_def Let_def split: option.splits if_splits prod.splits)
  then show ?thesis using cluster_untouched [OF statusUpdate_frame] by auto
qed

lemma fetch_events:
  "list_all (\<lambda>e. \<not> isIndexWrite e) (snd (fetchUniqueGroupMembers objs g ns vis))"
  "list_all (\<lambda>e. \<not> isIndexWrite e) (snd (fetchSubGroups objs gs ns vis))"
proof (induction objs g ns vis and objs gs ns vis rule: fetchUniqueGroupMembers_fetchSubGroups.induct)
  case (1 objs groupName namespace visitedOnPath)
  show ?case
  proof (cases "groupName \<in> set visitedOnPath")
    case True
    then show ?thesis by (simp add: fetchUniqueGroupMembers.simps)
  next
    case False
    show ?thesis
    proof (cases "map_of objs (namespace, groupName)")
      case None
      then show ?thesis using False by (simp add: fetchUniqueGroupMembers.simps)
    next
      case (Some cr)
      obtain r evs0 where sub: "fetchSubGroups objs (Groups (Members (Spec cr))) namespace
          (groupName # visitedOnPath) = (r, evs0)" by fastforce
      have "list_all (\<lambda>e. \<not> isIndexWrite e) evs0"
        using "1.IH" [OF False Some] sub by simp
      then show ?thesis
        using False Some sub by (cases r) (simp_all add: fetchUniqueGroupMembers.simps)
    qed
  qed
next
  case (2 objs namespace visitedOnPath)
  show ?case by simp
next
  case (3 objs subGroup rest namespace visitedOnPath)
  obtain r1 e1 where c1: "fetchUniqueGroupMembers objs subGroup namespace visitedOnPath = (r1, e1)"
    by fastforce
  have i1: "list_all (\<lambda>e. \<not> isIndexWrite e) e1" using "3.IH"(1) c1 by simp
  show ?case
  proof (cases r1)
    case (Inl err)
    then show ?thesis using c1 i1 by simp
  next
    case (Inr m1)
    obtain r2 e2 where c2: "fetchSubGroups objs rest namespace visitedOnPath = (r2, e2)"
      by fastforce
    have "list_all (\<lambda>e. \<not> isIndexWrite e) e2"
      using "3.IH"(2) [OF c1 [symmetric] Inr] c2 by simp
    then show ?thesis using c1 c2 Inr i1 by (cases r2) simp_all
  qed
qed

lemma entry_hasErrors:
  assumes "map_of be t = Some tm" and "map_of tm n = Some msg"
  shows "hasErrors be"
proof -
  have "(t, tm) \<in> set be" using assms(1) by (rule map_of_SomeD)
  moreover have "tm \<noteq> []" using assms(2) by auto
  ultimately show ?thesis by (auto simp: hasErrors_def list_ex_iff)
qed

lemma reconcileLocked_untouched:
  assumes l: "fetchLDAPData env us (emit CacheLock s) = (ldapResult, s1)"
    and b: "processAllBackends env cr us s1 = (be, s2)"
    and e: "hasErrors be"
    and r: "reconcileLocked env cr us s = (result, s')"
  shows "untouched s s' \<and> result \<noteq> None"
proof -
  have u1: "untouched s s1"
    using untouched_trans [OF untouched_emit fetchLDAPData_untouched [OF l]] by simp
  note u2 = untouched_trans [OF u1 processAllBackends_untouched [OF b]]
  obtain q cr' s4 where f: "RemoveForceReconcileLabel env cr s2 = (q, cr', s4)"
    by (cases "RemoveForceReconcileLabel env cr s2") auto
  note u4 = untouched_trans [OF u2 RemoveForceReconcileLabel_untouched [OF f]]
  obtain q5 cr5 s5 where g: "updateStatusAndHandleErrors env cr' be s4 = (q5, cr5, s5)"
    by (cases "updateStatusAndHandleErrors env cr' be s4") auto
  note u5 = untouched_trans [OF u4 updateStatusAndHandleErrors_untouched [OF g]]
  have q5: "q5 \<noteq> None" using usahe_result [OF g] e by auto
  have "(s' = emit CacheUnlock s4 \<or> s' = emit CacheUnlock s5) \<and> result \<noteq> None"
    using r l b e f g q5 by (auto simp: reconcileLocked_def split: option.splits)
  then show ?thesis
    using untouched_trans [OF u4 untouched_emit] untouched_trans [OF u5 untouched_emit] by auto
qed

text \<open>
  Claim C1. A reconcile that gets as far as the per-backend processing and in which the
  processing leaves an error entry for a declared backend makes none of the calls
  \<open>UserGroups.AddGroup\<close>, \<open>UserGroups.RemoveGroup\<close> and \<open>Group.SetMembers\<close> from its start to
  its end; the members of every group and the groups of every email are as they were before
  the reconcile, and the reconcile returns an error.
\<close>

theorem backend_error_leaves_indexes:
  assumes p: "reconcilePrelude env req s = (Inr groupCR, s1)"
    and c: "isGroupConfigurable env groupCR"
    and m: "fetchUniqueGroupMembers (objects s1) (GroupName (Spec groupCR)) (Namespace groupCR) [] =
              (Inr allMembers, evs)"
    and l: "fetchLDAPData env (deduplicateMembers allMembers) (emit CacheLock (s1\<lparr>trace := trace s1 @ evs\<rparr>)) =
              (ldapResult, s2)"
    and b: "processAllBackends env
              (groupCR\<lparr>Status := (Status groupCR)\<lparr>ReconciledUsers := deduplicateMembers allMembers\<rparr>\<rparr>)
              (deduplicateMembers allMembers) s2 = (backendErrors, s3)"
    and d: "backend \<in> set (Backends (Spec groupCR))"
    and e: "map_of backendErrors (bType backend) = Some typeMap"
           "map_of typeMap (bName backend) = Some msg"
    and r: "Reconcile env req s = (result, s')"
  shows "steps (\<lambda>ev. \<not> isIndexWrite ev) s s' \<and>
         (\<forall>g. groupMembers s' g = groupMembers s g) \<and>
         (\<forall>email. userGroups s' email = userGroups s email) \<and>
         result \<noteq> None"
proof -
  let ?s1' = "s1\<lparr>trace := trace s1 @ evs\<rparr>"
  let ?cr = "groupCR\<lparr>Status := (Status groupCR)\<lparr>ReconciledUsers := deduplicateMembers allMembers\<rparr>\<rparr>"
  have u1: "untouched s s1"
    using cluster_untouched [OF reconcilePrelude_frame [OF p]] .
  have u2: "untouched s1 ?s1'"
    using untouched_events [OF fetch_events(1) [of "objects s1" "GroupName (Spec groupCR)" "Namespace groupCR" "[]"]] m
    by simp
  have k: "reconcileLocked env ?cr (deduplicateMembers allMembers) ?s1' = (result, s')"
    using r p c m by (simp add: Reconcile_def)
  note t = reconcileLocked_untouched [OF l b entry_hasErrors [OF e] k]
  have "untouched s s'"
    using untouched_trans [OF untouched_trans [OF u1 u2] conjunct1 [OF t]] .
  then show ?thesis
    using t by (simp add: untouched_def sameIndexes_def userGroups_def)
qed

text \<open>
  Boundary scenario 3 of the specification: the group \<open>g1\<close> of \<open>ftState\<close> declares the backends
  \<open>ftA\<close> and \<open>ftB\<close>; creating the team succeeds on \<open>ftA\<close> and fails with 500 on \<open>ftB\<close>. The
  reconcile returns an error and writes neither index; the id of the user created on \<open>ftA\<close>
  stays in the User store.
\<close>

definition ftBFailsEnv :: env where
  "ftBFailsEnv = exampleEnv\<lparr>createTeam :=
     (\<lambda>h. case last h of
             CreateTeam c team \<Rightarrow>
               if c = ''ftB_fivetran'' then Inl (Error ''500'')
               else Inr (team\<lparr>tID := ''T-'' @ tName team\<rparr>)
           | other \<Rightarrow> Inl (Error ''unexpected call''))\<rparr>"

theorem backend_error_leaves_indexes_witness:
  "fst (Reconcile ftBFailsEnv (''usernaut'', ''g1'') ftState) = Some (Error ''failed to reconcile all backends'') \<and>
   steps (\<lambda>ev. \<not> isIndexWrite ev) ftState (snd (Reconcile ftBFailsEnv (''usernaut'', ''g1'') ftState)) \<and>
   groupMembers (snd (Reconcile ftBFailsEnv (''usernaut'', ''g1'') ftState)) ''g1'' = [] \<and>
   userGroups (snd (Reconcile ftBFailsEnv (''usernaut'', ''g1'') ftState)) ''alice@x'' = [] \<and>
   userStore (snd (Reconcile ftBFailsEnv (''usernaut'', ''g1'') ftState)) =
     [(''alice@x'', [(''ftA_fivetran'', ''U-alice@x'')])]"
proof -
  let ?env = ftBFailsEnv
  let ?req = "(''usernaut'', ''g1'')"
  let ?cr = "SetWaiting ?env ftGroup"
  let ?cr' = "?cr\<lparr>Status := (Status ?cr)\<lparr>ReconciledUsers := deduplicateMembers [''alice'']\<rparr>\<rparr>"
  define s1 where "s1 = snd (reconcilePrelude ?env ?req ftState)"
  define s1' where "s1' = emit CacheLock (s1\<lparr>trace := trace s1 @ [GetMemberCR (''usernaut'', ''g1'')]\<rparr>)"
  define L where "L = fetchLDAPData ?env (deduplicateMembers [''alice'']) s1'"
  define B where "B = processAllBackends ?env ?cr' (deduplicateMembers [''alice'']) (snd L)"
  define R where "R = Reconcile ?env ?req ftState"
  have p0: "fst (reconcilePrelude ?env ?req ftState) = Inr ?cr"
    by code_simp
  have p: "reconcilePrelude ?env ?req ftState = (Inr ?cr, s1)"
    using p0 by (simp add: s1_def prod_eq_iff)
  have c: "isGroupConfigurable ?env ?cr"
    by code_simp
  have m: "fetchUniqueGroupMembers (objects s1) (GroupName (Spec ?cr)) (Namespace ?cr) [] =
      (Inr [''alice''], [GetMemberCR (''usernaut'', ''g1'')])"
    unfolding s1_def by code_simp
  have l: "fetchLDAPData ?env (deduplicateMembers [''alice''])
      (emit CacheLock (s1\<lparr>trace := trace s1 @ [GetMemberCR (''usernaut'', ''g1'')]\<rparr>)) = (fst L, snd L)"
    by (simp add: L_def s1'_def)
  have b0: "fst B = [(''fivetran'', [(''ftB'', ''500'')])]"
    unfolding B_def L_def s1'_def s1_def by code_simp
  have b: "processAllBackends ?env ?cr' (deduplicateMembers [''alice'']) (snd L) =
      ([(''fivetran'', [(''ftB'', ''500'')])], snd B)"
    using b0 by (simp add: B_def prod_eq_iff)
  have d: "\<lparr>bName = ''ftB'', bType = ''fivetran''\<rparr> \<in> set (Backends (Spec ?cr))"
    by code_simp
  have e1: "map_of [(''fivetran'', [(''ftB'', ''500'')])] (bType \<lparr>bName = ''ftB'', bType = ''fivetran''\<rparr>) =
      Some [(''ftB'', ''500'')]"
    by simp
  have e2: "map_of [(''ftB'', ''500'')] (bName \<lparr>bName = ''ftB'', bType = ''fivetran''\<rparr>) = Some ''500''"
    by simp
  have r: "Reconcile ?env ?req ftState = (fst R, snd R)"
    by (simp add: R_def)
  note t = backend_error_leaves_indexes [OF p c m l b d e1 e2 r]
  have f: "fst R = Some (Error ''failed to reconcile all backends'')"
    unfolding R_def by code_simp
  have u: "userStore (snd R) = [(''alice@x'', [(''ftA_fivetran'', ''U-alice@x'')])]"
    unfolding R_def by code_simp
  have g0: "groupMembers ftState ''g1'' = []" "userGroups ftState ''alice@x'' = []"
    by code_simp+
  show ?thesis
    using t f u g0 unfolding R_def by simp
qed

section \<open>Reverse-index consistency\<close>

text \<open>
  What \<open>updateCacheIndexes\<close> leaves behind when no cache operation fails: the group is added
  to the index of every current member and removed from the index of every previous member
  that is no current member, and the members of the group are the current members.
\<close>

lemma untouched_views:
  "untouched s s' \<Longrightarrow> userGroups s' e = userGroups s e \<and> groupMembers s' g = groupMembers s g"
  by (simp add: untouched_def sameIndexes_def userGroups_def)

lemma UserGroups_AddGroup_ok:
  assumes "\<forall>h. cacheFault env h = None" and "UserGroups_AddGroup env e G s = (r, s')"
  shows "r = None \<and> groupStore s' = groupStore s \<and>
         (\<forall>e'. set (userGroups s' e') =
                 (if e' = e then insert G (set (userGroups s e')) else set (userGroups s e')))"
  using assms
  by (auto simp: UserGroups_AddGroup_def cacheCall_def Let_def userGroups_def lookupOr_def update_conv'
           split: if_splits option.splits)

lemma UserGroups_RemoveGroup_ok:
  assumes "\<forall>h. cacheFault env h = None" and "UserGroups_RemoveGroup env e G s = (r, s')"
  shows "r = None \<and> groupStore s' = groupStore s \<and>
         (\<forall>e'. set (userGroups s' e') =
                 (if e' = e then set (userGroups s e') - {G} else set (userGroups s e')))"
proof -
  let ?gs = "filter (\<lambda>g. g \<noteq> G) (lookupOr [] (userGroupsStore s) e)"
  have s': "s' = (if ?gs = [] then (emit (UserGroupsRemoveGroup e G) s)\<lparr>userGroupsStore := AList.delete e (userGroupsStore s)\<rparr>
                  else (emit (UserGroupsRemoveGroup e G) s)\<lparr>userGroupsStore := AList.update e ?gs (userGroupsStore s)\<rparr>)"
    and r: "r = None"
    using assms by (auto simp: UserGroups_RemoveGroup_def cacheCall_def Let_def split: if_splits)
  have g: "groupStore s' = groupStore s" unfolding s' by simp
  have v: "\<forall>e'. set (userGroups s' e') =
                 (if e' = e then set (userGroups s e') - {G} else set (userGroups s e'))"
  proof (cases "?gs = []")
    case True
    then have "set (lookupOr [] (userGroupsStore s) e) - {G} = {}"
      by (auto simp: filter_empty_conv)
    then show ?thesis
      using True unfolding s' by (auto simp: userGroups_def lookupOr_def delete_conv')
  next
    case False
    have "set ?gs = set (lookupOr [] (userGroupsStore s) e) - {G}" by auto
    then show ?thesis
      using False unfolding s' by (auto simp: userGroups_def lookupOr_def update_conv')
  qed
  show ?thesis using r g v by simp
qed

lemma addGroupToMembers_ok:
  assumes c: "\<forall>h. cacheFault env h = None"
  shows "addGroupToMembers env G ms errs s = (errs', s') \<Longrightarrow>
         errs' = errs \<and> groupStore s' = groupStore s \<and>
         (\<forall>e. set (userGroups s' e) =
                (if e \<in> set ms then insert G (set (userGroups s e)) else set (userGroups s e)))"
proof (induction ms arbitrary: s)
  case Nil
  then show ?case by simp
next
  case (Cons m ms)
  obtain q s1 where a: "UserGroups_AddGroup env m G s = (q, s1)"
    by (cases "UserGroups_AddGroup env m G s") auto
  note a1 = UserGroups_AddGroup_ok [OF c a]
  have "addGroupToMembers env G ms errs s1 = (errs', s')"
    using Cons.prems a a1 by simp
  note i = Cons.IH [OF this]
  show ?case using a1 i by auto
qed

lemma removeGroupFromFormerMembers_ok:
  assumes c: "\<forall>h. cacheFault env h = None"
  shows "removeGroupFromFormerMembers env G cur ps errs s = (errs', s') \<Longrightarrow>
         errs' = errs \<and> groupStore s' = groupStore s \<and>
         (\<forall>e. set (userGroups s' e) =
                (if e \<in> set ps \<and> e \<notin> set cur then set (userGroups s e) - {G} else set (userGroups s e)))"
proof (induction ps arbitrary: s)
  case Nil
  then show ?case by simp
next
  case (Cons m ps)
  show ?case
  proof (cases "m \<in> set cur")
    case True
    then have "removeGroupFromFormerMembers env G cur ps errs s = (errs', s')"
      using Cons.prems by simp
    note i = Cons.IH [OF this]
    show ?thesis using i True by auto
  next
    case False
    obtain q s1 where a: "UserGroups_RemoveGroup env m G s = (q, s1)"
      by (cases "UserGroups_RemoveGroup env m G s") auto
    note a1 = UserGroups_RemoveGroup_ok [OF c a]
    have "removeGroupFromFormerMembers env G cur ps errs s1 = (errs', s')"
      using Cons.prems a a1 False by simp
    note i = Cons.IH [OF this]
    show ?thesis using a1 i False by auto
  qed
qed

lemma Group_GetMembers_ok:
  assumes "\<forall>h. cacheFault env h = None" and "Group_GetMembers env G s = (r, s')"
  shows "r = Inr (groupMembers s G) \<and> s' = emit (GroupGetMembers G) s"
  using assms by (auto simp: Group_GetMembers_def cacheCall_def groupMembers_def)

lemma Group_SetMembers_ok:
  assumes "\<forall>h. cacheFault env h = None" and "Group_SetMembers env G ms s = (r, s')"
  shows "r = None \<and> userGroupsStore s' = userGroupsStore s \<and> groupMembers s' G = ms"
  using assms
  by (auto simp: Group_SetMembers_def cacheCall_def groupMembers_def lookupOr_def update_conv')

lemma updateCacheIndexes_ok:
  assumes c: "\<forall>h. cacheFault env h = None"
    and u: "updateCacheIndexes env G ldap s = (r, s')"
  shows "r = None \<and> groupMembers s' G = CurrentMembers ldap \<and>
         (\<forall>e. set (userGroups s' e) =
                (if e \<in> set (CurrentMembers ldap) then insert G (set (userGroups s e))
                 else if e \<in> set (groupMembers s G) then set (userGroups s e) - {G}
                 else set (userGroups s e)))"
proof -
  let ?s0 = "emit (GroupGetMembers G) s"
  have g: "Group_GetMembers env G s = (Inr (groupMembers s G), ?s0)"
    using Group_GetMembers_ok [OF c, of G s] by (cases "Group_GetMembers env G s") auto
  obtain e1 s1 where a: "addGroupToMembers env G (CurrentMembers ldap) [] ?s0 = (e1, s1)"
    by (cases "addGroupToMembers env G (CurrentMembers ldap) [] ?s0") auto
  note a1 = addGroupToMembers_ok [OF c a]
  obtain e2 s2 where d: "removeGroupFromFormerMembers env G (CurrentMembers ldap)
        (remdups (groupMembers s G)) e1 s1 = (e2, s2)"
    by (cases "removeGroupFromFormerMembers env G (CurrentMembers ldap)
        (remdups (groupMembers s G)) e1 s1") auto
  note d1 = removeGroupFromFormerMembers_ok [OF c d]
  obtain q s3 where m: "Group_SetMembers env G (CurrentMembers ldap) s2 = (q, s3)"
    by (cases "Group_SetMembers env G (CurrentMembers ldap) s2") auto
  note m1 = Group_SetMembers_ok [OF c m]
  have e2: "e2 = []" using a1 d1 by simp
  have "updateCacheIndexes env G ldap s = (None, s3)"
    using g a d m m1 e2 by (simp add: updateCacheIndexes_def)
  then have r: "r = None" and s': "s' = s3" using u by simp_all
  have v0: "\<And>e. userGroups ?s0 e = userGroups s e" by (simp add: userGroups_def)
  have v3: "\<And>e. userGroups s3 e = userGroups s2 e" using m1 by (simp add: userGroups_def)
  have "\<forall>e. set (userGroups s3 e) =
                (if e \<in> set (CurrentMembers ldap) then insert G (set (userGroups s e))
                 else if e \<in> set (groupMembers s G) then set (userGroups s e) - {G}
                 else set (userGroups s e))"
    using a1 d1 by (simp add: v0 v3)
  then show ?thesis using r m1 unfolding s' by simp
qed

lemma reconcileLocked_indexes:
  assumes c: "\<forall>h. cacheFault env h = None"
    and l: "fetchLDAPData env us (emit CacheLock s) = (ldapResult, s1)"
    and b: "processAllBackends env cr us s1 = (be, s2)"
    and e: "\<not> hasErrors be"
    and r: "reconcileLocked env cr us s = (result, s')"
  shows "groupMembers s' (GroupName (Spec cr)) = CurrentMembers ldapResult \<and>
         (\<forall>e. set (userGroups s' e) =
                (if e \<in> set (CurrentMembers ldapResult)
                 then insert (GroupName (Spec cr)) (set (userGroups s e))
                 else if e \<in> set (groupMembers s (GroupName (Spec cr)))
                 then set (userGroups s e) - {GroupName (Spec cr)}
                 else set (userGroups s e)))"
proof -
  let ?G = "GroupName (Spec cr)"
  have u1: "untouched s s1"
    using untouched_trans [OF untouched_emit fetchLDAPData_untouched [OF l]] by simp
  note u2 = untouched_trans [OF u1 processAllBackends_untouched [OF b]]
  obtain q3 s3 where i: "updateCacheIndexes env ?G ldapResult s2 = (q3, s3)"
    by (cases "updateCacheIndexes env ?G ldapResult s2") auto
  note i1 = updateCacheIndexes_ok [OF c i]
  obtain q cr' s4 where f: "RemoveForceReconcileLabel env cr s3 = (q, cr', s4)"
    by (cases "RemoveForceReconcileLabel env cr s3") auto
  note u4 = RemoveForceReconcileLabel_untouched [OF f]
  obtain q5 cr5 s5 where g: "updateStatusAndHandleErrors env cr' be s4 = (q5, cr5, s5)"
    by (cases "updateStatusAndHandleErrors env cr' be s4") auto
  note u5 = untouched_trans [OF u4 updateStatusAndHandleErrors_untouched [OF g]]
  have "s' = emit CacheUnlock s4 \<or> s' = emit CacheUnlock s5"
    using r l b e i f g by (auto simp: reconcileLocked_def split: option.splits)
  then have "untouched s3 s'"
    using untouched_trans [OF u4 untouched_emit] untouched_trans [OF u5 untouched_emit] by auto
  then have v: "\<And>e g. userGroups s' e = userGroups s3 e \<and> groupMembers s' g = groupMembers s3 g"
    by (rule untouched_views)
  have w: "\<And>e g. userGroups s2 e = userGroups s e \<and> groupMembers s2 g = groupMembers s g"
    using u2 by (rule untouched_views)
  show ?thesis using i1 by (simp add: v w)
qed

text \<open>
  Claim C2, as the code has it. Take a reconcile that gets as far as the per-backend
  processing, in which the processing records no error and no cache operation fails. After
  it the members of the group are the current members that LDAP resolved; the group is in
  the index of every current member, it is in the index of no previous member that is no
  current member, and the index of every other email is as it was. If, before the reconcile,
  every email that had the group in its index was a member of the group, then after it an
  email is a member of the group exactly when the group is in the index of the email.
\<close>

theorem reverse_index_after_reconcile:
  assumes p: "reconcilePrelude env req s = (Inr groupCR, s1)"
    and c: "isGroupConfigurable env groupCR"
    and m: "fetchUniqueGroupMembers (objects s1) (GroupName (Spec groupCR)) (Namespace groupCR) [] =
              (Inr allMembers, evs)"
    and l: "fetchLDAPData env (deduplicateMembers allMembers) (emit CacheLock (s1\<lparr>trace := trace s1 @ evs\<rparr>)) =
              (ldapResult, s2)"
    and b: "processAllBackends env
              (groupCR\<lparr>Status := (Status groupCR)\<lparr>ReconciledUsers := deduplicateMembers allMembers\<rparr>\<rparr>)
              (deduplicateMembers allMembers) s2 = (backendErrors, s3)"
    and ok: "errorEntries backendErrors = []"
    and f: "\<forall>h. cacheFault env h = None"
    and pre: "\<forall>email. GroupName (Spec groupCR) \<in> set (userGroups s email) \<longrightarrow>
                email \<in> set (groupMembers s (GroupName (Spec groupCR)))"
    and r: "Reconcile env req s = (result, s')"
  shows "groupMembers s' (GroupName (Spec groupCR)) = CurrentMembers ldapResult \<and>
         (\<forall>email. set (userGroups s' email) =
                (if email \<in> set (CurrentMembers ldapResult)
                 then insert (GroupName (Spec groupCR)) (set (userGroups s email))
                 else if email \<in> set (groupMembers s (GroupName (Spec groupCR)))
                 then set (userGroups s email) - {GroupName (Spec groupCR)}
                 else set (userGroups s email))) \<and>
         (\<forall>email. email \<in> set (groupMembers s' (GroupName (Spec groupCR))) \<longleftrightarrow>
                GroupName (Spec groupCR) \<in> set (userGroups s' email))"
proof -
  let ?G = "GroupName (Spec groupCR)"
  let ?s1' = "s1\<lparr>trace := trace s1 @ evs\<rparr>"
  let ?cr = "groupCR\<lparr>Status := (Status groupCR)\<lparr>ReconciledUsers := deduplicateMembers allMembers\<rparr>\<rparr>"
  have u1: "untouched s s1"
    using cluster_untouched [OF reconcilePrelude_frame [OF p]] .
  have u2: "untouched s1 ?s1'"
    using untouched_events [OF fetch_events(1) [of "objects s1" "GroupName (Spec groupCR)" "Namespace groupCR" "[]"]] m
    by simp
  have w: "\<And>e g. userGroups ?s1' e = userGroups s e \<and> groupMembers ?s1' g = groupMembers s g"
    using untouched_trans [OF u1 u2] by (rule untouched_views)
  have k: "reconcileLocked env ?cr (deduplicateMembers allMembers) ?s1' = (result, s')"
    using r p c m by (simp add: Reconcile_def)
  have ne: "\<not> hasErrors backendErrors" using ok by (simp add: hasErrors_iff)
  have t: "groupMembers s' ?G = CurrentMembers ldapResult \<and>
         (\<forall>e. set (userGroups s' e) =
                (if e \<in> set (CurrentMembers ldapResult) then insert ?G (set (userGroups s e))
                 else if e \<in> set (groupMembers s ?G) then set (userGroups s e) - {?G}
                 else set (userGroups s e)))"
    using reconcileLocked_indexes [OF f l b ne k] by (simp add: w)
  have "\<forall>email. email \<in> set (groupMembers s' ?G) \<longleftrightarrow> ?G \<in> set (userGroups s' email)"
  proof
    fix email
    show "email \<in> set (groupMembers s' ?G) \<longleftrightarrow> ?G \<in> set (userGroups s' email)"
      using t pre by (cases "email \<in> set (CurrentMembers ldapResult)") auto
  qed
  then show ?thesis using t by simp
qed

text \<open>
  The claim does not hold of every reconcile in which every backend succeeds: a failed
  \<open>UserGroups.AddGroup\<close> is logged and the reconcile goes on (lines 183-186 and 294-299). Here
  the cache refuses every \<open>AddGroup\<close>; both backends of \<open>g1\<close> succeed, the reconcile returns
  nil, \<open>alice@x\<close> is a member of \<open>g1\<close>, and \<open>g1\<close> is not in the index of \<open>alice@x\<close>.
\<close>

definition indexFaultEnv :: env where
  "indexFaultEnv = exampleEnv\<lparr>cacheFault :=
     (\<lambda>h. case last h of
             UserGroupsAddGroup email g \<Rightarrow> Some (Error ''connection refused'')
           | other \<Rightarrow> None)\<rparr>"

theorem reverse_index_counterexample:
  "fst (Reconcile indexFaultEnv (''usernaut'', ''g1'') ftState) = None \<and>
   map_option (\<lambda>cr. map bsStatus (BackendsStatus (Status cr)))
     (map_of (objects (snd (Reconcile indexFaultEnv (''usernaut'', ''g1'') ftState))) (''usernaut'', ''g1'')) =
     Some [True, True] \<and>
   groupMembers (snd (Reconcile indexFaultEnv (''usernaut'', ''g1'') ftState)) ''g1'' = [''alice@x''] \<and>
   userGroups (snd (Reconcile indexFaultEnv (''usernaut'', ''g1'') ftState)) ''alice@x'' = []"
  by code_simp

text \<open>
  With the example environment both backends of \<open>g1\<close> succeed and nothing fails: after the
  reconcile \<open>alice@x\<close> is the one member of \<open>g1\<close> and \<open>g1\<close> the one group of \<open>alice@x\<close>.
\<close>

theorem reverse_index_after_reconcile_witness:
  "errorEntries (fst (processAllBackends exampleEnv
       ((SetWaiting exampleEnv ftGroup)\<lparr>Status := (Status (SetWaiting exampleEnv ftGroup))\<lparr>ReconciledUsers := [''alice'']\<rparr>\<rparr>)
       [''alice'']
       (snd (fetchLDAPData exampleEnv [''alice'']
          (emit CacheLock ((snd (reconcilePrelude exampleEnv (''usernaut'', ''g1'') ftState))
             \<lparr>trace := trace (snd (reconcilePrelude exampleEnv (''usernaut'', ''g1'') ftState)) @
                        [GetMemberCR (''usernaut'', ''g1'')]\<rparr>)))))) = [] \<and>
   groupMembers (snd (Reconcile exampleEnv (''usernaut'', ''g1'') ftState)) ''g1'' = [''alice@x''] \<and>
   set (userGroups (snd (Reconcile exampleEnv (''usernaut'', ''g1'') ftState)) ''alice@x'') = {''g1''} \<and>
   set (userGroups (snd (Reconcile exampleEnv (''usernaut'', ''g1'') ftState)) ''bob@x'') = {}"
proof -
  let ?env = exampleEnv
  let ?req = "(''usernaut'', ''g1'')"
  let ?cr = "SetWaiting ?env ftGroup"
  let ?cr' = "?cr\<lparr>Status := (Status ?cr)\<lparr>ReconciledUsers := deduplicateMembers [''alice'']\<rparr>\<rparr>"
  define s1 where "s1 = snd (reconcilePrelude ?env ?req ftState)"
  define s1' where "s1' = emit CacheLock (s1\<lparr>trace := trace s1 @ [GetMemberCR (''usernaut'', ''g1'')]\<rparr>)"
  define L where "L = fetchLDAPData ?env (deduplicateMembers [''alice'']) s1'"
  define B where "B = processAllBackends ?env ?cr' (deduplicateMembers [''alice'']) (snd L)"
  define R where "R = Reconcile ?env ?req ftState"
  have dd: "deduplicateMembers [''alice''] = [''alice'']" by code_simp
  have p0: "fst (reconcilePrelude ?env ?req ftState) = Inr ?cr"
    by code_simp
  have p: "reconcilePrelude ?env ?req ftState = (Inr ?cr, s1)"
    using p0 by (simp add: s1_def prod_eq_iff)
  have c: "isGroupConfigurable ?env ?cr"
    by code_simp
  have m: "fetchUniqueGroupMembers (objects s1) (GroupName (Spec ?cr)) (Namespace ?cr) [] =
      (Inr [''alice''], [GetMemberCR (''usernaut'', ''g1'')])"
    unfolding s1_def by code_simp
  have l: "fetchLDAPData ?env (deduplicateMembers [''alice''])
      (emit CacheLock (s1\<lparr>trace := trace s1 @ [GetMemberCR (''usernaut'', ''g1'')]\<rparr>)) = (fst L, snd L)"
    by (simp add: L_def s1'_def)
  have cm: "CurrentMembers (fst L) = [''alice@x'']"
    unfolding L_def s1'_def s1_def by code_simp
  have b0: "fst B = []"
    unfolding B_def L_def s1'_def s1_def by code_simp
  have b: "processAllBackends ?env ?cr' (deduplicateMembers [''alice'']) (snd L) = (fst B, snd B)"
    by (simp add: B_def)
  have ok: "errorEntries (fst B) = []"
    using b0 by (simp add: errorEntries_def)
  have f: "\<forall>h. cacheFault ?env h = None"
    by (simp add: exampleEnv_def)
  have pre: "\<forall>email. GroupName (Spec ?cr) \<in> set (userGroups ftState email) \<longrightarrow>
                email \<in> set (groupMembers ftState (GroupName (Spec ?cr)))"
    by (simp add: userGroups_def ftState_def emptyState_def lookupOr_def)
  have r: "Reconcile ?env ?req ftState = (fst R, snd R)"
    by (simp add: R_def)
  note t = reverse_index_after_reconcile [OF p c m l b ok f pre r]
  have G: "GroupName (Spec ?cr) = ''g1''" by code_simp
  have u0: "\<And>e. userGroups ftState e = []"
    by (simp add: userGroups_def ftState_def emptyState_def lookupOr_def)
  have g0: "groupMembers ftState ''g1'' = []"
    by code_simp
  have t1: "groupMembers (snd R) ''g1'' = [''alice@x'']"
    using t cm G by simp
  have t2: "set (userGroups (snd R) ''alice@x'') = {''g1''}"
    using conjunct1 [OF conjunct2 [OF t]] cm G u0 by simp
  have t3: "set (userGroups (snd R) ''bob@x'') = {}"
    using conjunct1 [OF conjunct2 [OF t]] cm G u0 g0 by simp
  show ?thesis
    using ok t1 t2 t3 unfolding R_def B_def L_def s1'_def s1_def dd by simp
qed

text \<open>
  Three more runs of the example environment on \<open>g1\<close>. A previous member that is no current
  member loses \<open>g1\<close> from its index and keeps its other groups.
\<close>

definition formerMemberState :: state where
  "formerMemberState = ftState\<lparr>
     groupStore := [(''g1'', \<lparr>gdMembers = [''bob@x''], gdBackends = []\<rparr>)],
     userGroupsStore := [(''bob@x'', [''g1'', ''g2''])]\<rparr>"

lemma reverse_index_former_member:
  "fst (Reconcile exampleEnv (''usernaut'', ''g1'') formerMemberState) = None \<and>
   groupMembers (snd (Reconcile exampleEnv (''usernaut'', ''g1'') formerMemberState)) ''g1'' = [''alice@x''] \<and>
   userGroups (snd (Reconcile exampleEnv (''usernaut'', ''g1'') formerMemberState)) ''alice@x'' = [''g1''] \<and>
   userGroups (snd (Reconcile exampleEnv (''usernaut'', ''g1'') formerMemberState)) ''bob@x'' = [''g2'']"
  by code_simp

text \<open>
  An email that has \<open>g1\<close> in its index without being a member of \<open>g1\<close> before the reconcile
  still has it afterwards: the loops range over the current and the previous members only.
\<close>

definition staleState :: state where
  "staleState = ftState\<lparr>userGroupsStore := [(''bob@x'', [''g1''])]\<rparr>"

lemma reverse_index_stale_entry:
  "fst (Reconcile exampleEnv (''usernaut'', ''g1'') staleState) = None \<and>
   groupMembers (snd (Reconcile exampleEnv (''usernaut'', ''g1'') staleState)) ''g1'' = [''alice@x''] \<and>
   userGroups (snd (Reconcile exampleEnv (''usernaut'', ''g1'') staleState)) ''bob@x'' = [''g1'']"
  by code_simp

text \<open>
  A group parameter that names a backend the group does not declare is recorded as an error
  (processAllBackends 345-355): both declared backends succeed, and the indexes are not
  updated.
\<close>

definition undeclaredParamState :: state where
  "undeclaredParamState = emptyState\<lparr>objects :=
     [((''usernaut'', ''g1''),
       ftGroup\<lparr>Spec := (Spec ftGroup)\<lparr>GroupParams :=
         [\<lparr>gpBackend = ''gitlab'', gpName = ''gl'', gpProperty = ''project_access_paths'',
           gpValue = [''a/b'']\<rparr>]\<rparr>\<rparr>)]\<rparr>"

lemma reverse_index_undeclared_param:
  "fst (Reconcile exampleEnv (''usernaut'', ''g1'') undeclaredParamState) =
     Some (Error ''failed to reconcile all backends'') \<and>
   map_option (\<lambda>cr. map bsStatus (BackendsStatus (Status cr)))
     (map_of (objects (snd (Reconcile exampleEnv (''usernaut'', ''g1'') undeclaredParamState)))
        (''usernaut'', ''g1'')) = Some [True, True] \<and>
   groupMembers (snd (Reconcile exampleEnv (''usernaut'', ''g1'') undeclaredParamState)) ''g1'' = [] \<and>
   userGroups (snd (Reconcile exampleEnv (''usernaut'', ''g1'') undeclaredParamState)) ''alice@x'' = []"
  by code_simp

section \<open>Offboarding: the backends and the User store\<close>















definition jobClients :: "(string \<times> Client) list" where
  "jobClients =
     [(''ftA_fivetran'', \<lparr>clKey = ''ftA_fivetran'', clIsGitlab = False\<rparr>),
      (''gl_gitlab'', \<lparr>clKey = ''gl_gitlab'', clIsGitlab = True\<rparr>),
      (''rover_rover'', \<lparr>clKey = ''rover_rover'', clIsGitlab = False\<rparr>)]"


text \<open>
  The lookup takes the first entry whose key contains the user key (385-396). With the
  entries of \<open>joanne@x\<close> and \<open>anne@x\<close> in this order, offboarding \<open>anne@x\<close> calls \<open>DeleteUser\<close>
  with the id of \<open>joanne@x\<close> and deletes the entry of \<open>joanne@x\<close>; the theorem above says
  nothing about such a store.
\<close>

definition twoAnnesState :: state where
  "twoAnnesState = emptyState\<lparr>userStore :=
     [(''joanne@x'', [(''ftA_fivetran'', ''UJ'')]), (''anne@x'', [(''ftA_fivetran'', ''UA'')])]\<rparr>"

lemma offboardUser_first_match:
  "trace (snd (offboardUser exampleEnv jobClients ''anne@x'' twoAnnesState)) =
     [CacheRLock, UserGetByPattern ''*anne@x*'', CacheRUnlock, DeleteUser ''ftA_fivetran'' ''UJ'',
      CacheLock, UserDelete ''joanne@x'', CacheUnlock] \<and>
   userStore (snd (offboardUser exampleEnv jobClients ''anne@x'' twoAnnesState)) =
     [(''anne@x'', [(''ftA_fivetran'', ''UA'')])]"
  by code_simp

end
